theory Spec2Isabelle
  imports Main "HOL-Library.Word"
begin

unbundle bit_operations_syntax

section \<open>The SSZ decoder of decoder.go\<close>

text \<open>
  A shallow embedding of \<^verbatim>\<open>decoder.go\<close>. The decoder is a record with the fields of the Go
  struct; every Go function becomes a HOL function that takes the decoder (and, where the
  function writes through a captured pointer, the caller's memory) and returns the updated
  values. A Go run-time panic is the left summand of the result.
\<close>

subsection \<open>Machine integers, errors and the input stream\<close>

type_synonym byte = "8 word"
type_synonym u32 = "32 word"
type_synonym u64 = "64 word"
type_synonym u256 = "256 word"

text \<open>
  The error kinds the decoder latches: the two errors of \<^verbatim>\<open>io.ReadFull\<close> and the sentinel
  errors that \<^verbatim>\<open>fmt.Errorf("%w: ...")\<close> wraps (the numbers of the message are dropped, the
  kind is what \<^verbatim>\<open>errors.Is\<close> sees).
\<close>

datatype error =
    EOF
  | ErrUnexpectedEOF
  | ErrOffsetBeyondCapacity
  | ErrFirstOffsetMismatch
  | ErrBadOffsetProgression
  | ErrBadCounterOffset
  | ErrShortCounterOffset
  | ErrDynamicStaticsIndivisible
  | ErrMaxItemsExceeded
  | ErrMaxLengthExceeded
  | ErrDynamicObjectInStaticSlot

datatype gopanic = IndexOutOfRange | DivideByZero

text \<open>
  \<^verbatim>\<open>io.ReadFull(r, buf)\<close> on a reader that serves a finite byte sequence \<open>r\<close>, for a
  buffer of \<open>n\<close> bytes: the error, the bytes copied to the front of the buffer, and the
  rest of the stream. A request for no bytes succeeds without reading.
\<close>

definition ReadFull :: "byte list \<Rightarrow> nat \<Rightarrow> error option \<times> byte list \<times> byte list" where
  "ReadFull r n =
     (if n \<le> length r then (None, take n r, drop n r)
      else if r = [] then (Some EOF, [], [])
      else (Some ErrUnexpectedEOF, r, []))"

text \<open>\<^verbatim>\<open>binary.LittleEndian.Uint32\<close> and \<^verbatim>\<open>Uint64\<close>, as the standard library writes them.\<close>

definition Uint32 :: "byte list \<Rightarrow> u32" where
  "Uint32 b = ucast (b ! 0) OR push_bit 8 (ucast (b ! 1)) OR push_bit 16 (ucast (b ! 2))
              OR push_bit 24 (ucast (b ! 3))"

definition Uint64 :: "byte list \<Rightarrow> u64" where
  "Uint64 b = ucast (b ! 0) OR push_bit 8 (ucast (b ! 1)) OR push_bit 16 (ucast (b ! 2))
              OR push_bit 24 (ucast (b ! 3)) OR push_bit 32 (ucast (b ! 4))
              OR push_bit 40 (ucast (b ! 5)) OR push_bit 48 (ucast (b ! 6))
              OR push_bit 56 (ucast (b ! 7))"

text \<open>\<^verbatim>\<open>uint256.Int.UnmarshalSSZ\<close> (an external library): 32 little-endian bytes.\<close>

definition UnmarshalSSZ :: "byte list \<Rightarrow> u256" where
  "UnmarshalSSZ b = foldr (\<lambda>x acc. ucast x OR push_bit 8 acc) b 0"

subsection \<open>Slices and the caller's memory\<close>

text \<open>
  A Go slice is its backing array, seen from the slice's first element (so the length of
  \<open>backing\<close> is \<^verbatim>\<open>cap\<close>), and its length. Distinct slices are taken to have distinct
  backing arrays.
\<close>

datatype 'a slice = Slice (backing: "'a list") (len: nat)

definition cap :: "'a slice \<Rightarrow> nat" where
  "cap s = length (backing s)"

definition elems :: "'a slice \<Rightarrow> 'a list" where
  "elems s = take (len s) (backing s)"

text \<open>\<^verbatim>\<open>make([]T, n)\<close> with the zero value \<open>z\<close> of \<open>T\<close>, and \<^verbatim>\<open>s[:n]\<close>.\<close>

definition make_slice :: "'a \<Rightarrow> nat \<Rightarrow> 'a slice" where
  "make_slice z n = Slice (replicate n z) n"

definition reslice :: "'a slice \<Rightarrow> nat \<Rightarrow> 'a slice" where
  "reslice s n = Slice (backing s) n"

text \<open>
  The idiom of lines 130-134, 190-194, 256-260 and 316-320: reuse the slice when
  \<^verbatim>\<open>uint32(cap(s))\<close> suffices, allocate exactly \<open>n\<close> items otherwise.
\<close>

definition expand :: "'a \<Rightarrow> 'a slice \<Rightarrow> u32 \<Rightarrow> 'a slice" where
  "expand z s n = (if (of_nat (cap s) :: u32) < n then make_slice z (unat n) else reslice s (unat n))"

text \<open>Writing \<open>xs\<close> over the visible elements of a slice (the elements behind stay).\<close>

definition fill :: "'a slice \<Rightarrow> 'a list \<Rightarrow> 'a slice" where
  "fill s xs = Slice (xs @ drop (length xs) (backing s)) (len s)"

text \<open>
  Modelled from the spec: the \<^verbatim>\<open>newableObject\<close> interface and the records that implement it
  are not in this file. A static record is the ordered list of its fixed fields (spec,
  section 3): unsigned 64 and 256 bit integers and fixed-length byte strings. Its
  \<^verbatim>\<open>DecodeSSZ\<close> decodes them in order with the decoder's own operations; \<^verbatim>\<open>StaticSSZ\<close> and
  \<^verbatim>\<open>SizeSSZ\<close> are what the record's type answers, and \<open>new\<close> is the zero value that
  \<^verbatim>\<open>new(U)\<close> allocates.
\<close>

datatype fval = VUint64 u64 | VUint256 "u256 option" | VStaticBytes "byte list"

type_synonym object = "fval list"

record objtype =
  StaticSSZ :: bool
  SizeSSZ :: u32
  new :: object

text \<open>
  A \<^verbatim>\<open>*[]byte\<close>: the address of a caller's variable, or of an element of the backing array
  of a caller's \<^verbatim>\<open>[][]byte\<close> variable. Line 267 takes the address of an element below the
  slice's length, and the closure that holds it runs before the slice is assigned again,
  so the address is read through the variable.
\<close>

datatype blobptr = BlobVar nat | BlobElem nat nat

text \<open>
  The variables that the deferred closures write through, by the type they hold:
  \<^verbatim>\<open>[]byte\<close>, \<^verbatim>\<open>[][N]byte\<close>, \<^verbatim>\<open>[][]byte\<close> and \<^verbatim>\<open>[]*U\<close>.
\<close>

record memory =
  blob_vars :: "nat \<Rightarrow> byte slice"
  bytes_vars :: "nat \<Rightarrow> byte list slice"
  blobs_vars :: "nat \<Rightarrow> byte slice slice"
  objects_vars :: "nat \<Rightarrow> object option slice"

definition load_blob :: "memory \<Rightarrow> blobptr \<Rightarrow> byte slice" where
  "load_blob mem p =
     (case p of
        BlobVar v \<Rightarrow> blob_vars mem v
      | BlobElem v i \<Rightarrow> backing (blobs_vars mem v) ! i)"

definition store_blob :: "memory \<Rightarrow> blobptr \<Rightarrow> byte slice \<Rightarrow> memory" where
  "store_blob mem p b =
     (case p of
        BlobVar v \<Rightarrow> mem\<lparr>blob_vars := (blob_vars mem)(v := b)\<rparr>
      | BlobElem v i \<Rightarrow>
          mem\<lparr>blobs_vars := (blobs_vars mem)
                 (v := Slice ((backing (blobs_vars mem v))[i := b]) (len (blobs_vars mem v)))\<rparr>)"

subsection \<open>The decoder\<close>

text \<open>
  The closures of \<^verbatim>\<open>dec.pend\<close>, one constructor for each \<^verbatim>\<open>func()\<close> literal of the file
  (lines 114, 162, 215, 264 and 288), with the variables it captures.
\<close>

datatype pending =
    PendDynamicBytes blobptr u32
  | PendSliceOfStaticBytes nat nat u32
  | PendSliceOfDynamicBytes nat u32 u32
  | PendFirstBlob nat u32
  | PendSliceOfStaticObjects objtype nat u32

text \<open>
  The fields of \<^verbatim>\<open>Decoder\<close>; \<open>in_d\<close> is \<^verbatim>\<open>in\<close> (the bytes the reader has left) and
  \<open>length_d\<close> is \<^verbatim>\<open>length\<close>. \<open>offsets\<close> is \<open>None\<close> for Go's \<^verbatim>\<open>nil\<close> slice, which line 338
  tells from an empty one.
\<close>

record Decoder =
  in_d :: "byte list"
  err :: "error option"
  dyn :: bool
  buf :: "byte list"
  length_d :: u32
  lengths :: "u32 list"
  offset :: u32
  offsets :: "u32 list option"
  offsetss :: "u32 list option list"
  pend :: "pending list"
  pends :: "pending list list"

text \<open>\<^verbatim>\<open>OffsetDynamics\<close> (the closure it returns is \<open>dynamicDone\<close>, defined below).\<close>

definition OffsetDynamics :: "Decoder \<Rightarrow> int \<Rightarrow> Decoder" where
  "OffsetDynamics dec offset' =
     dec\<lparr>dyn := True,
         offsetss := offsetss dec @ [offsets dec],
         offsets := None,
         offset := word_of_int offset',
         pends := pends dec @ [pend dec],
         pend := []\<rparr>"

text \<open>\<^verbatim>\<open>len(dec.offsets)\<close> and indexing see \<^verbatim>\<open>nil\<close> as the empty slice.\<close>

definition offsets_list :: "Decoder \<Rightarrow> u32 list" where
  "offsets_list dec = (case offsets dec of None \<Rightarrow> [] | Some os \<Rightarrow> os)"

text \<open>\<^verbatim>\<open>decodeOffset\<close>: the error it returns and the decoder it leaves.\<close>

definition decodeOffset :: "Decoder \<Rightarrow> bool \<Rightarrow> error option \<times> Decoder" where
  "decodeOffset dec list =
     (case ReadFull (in_d dec) 4 of (e, bs, rest) \<Rightarrow>
        let dec1 = dec\<lparr>in_d := rest, buf := bs @ drop (length bs) (buf dec)\<rparr> in
        if e \<noteq> None then (e, dec1)
        else
          let offset' = Uint32 (take 4 (buf dec1)) in
          if offset' > length_d dec1 then (Some ErrOffsetBeyondCapacity, dec1)
          else if offsets dec1 = None \<and> \<not> list \<and> offset dec1 \<noteq> offset'
            then (Some ErrFirstOffsetMismatch, dec1)
          else if offsets dec1 \<noteq> None \<and> offset dec1 > offset'
            then (Some ErrBadOffsetProgression, dec1)
          else (None, dec1\<lparr>offset := offset',
                           offsets := Some (offsets_list dec1 @ [offset'])\<rparr>))"

text \<open>
  \<^verbatim>\<open>retrieveSize\<close>: the size and the decoder with the front offset popped. Indexing an
  empty queue panics in Go.
\<close>

definition retrieveSize :: "Decoder \<Rightarrow> gopanic + (u32 \<times> Decoder)" where
  "retrieveSize dec =
     (let os = offsets_list dec in
      if length os > 1 then Inr (os ! 1 - os ! 0, dec\<lparr>offsets := Some (drop 1 os)\<rparr>)
      else if os = [] then Inl IndexOutOfRange
      else Inr (length_d dec - os ! 0, dec\<lparr>offsets := Some (drop 1 os)\<rparr>))"

text \<open>\<^verbatim>\<open>descendIntoDynamic\<close>.\<close>

definition descendIntoDynamic :: "Decoder \<Rightarrow> u32 \<Rightarrow> Decoder" where
  "descendIntoDynamic dec length' =
     OffsetDynamics (dec\<lparr>lengths := lengths dec @ [length_d dec], length_d := length'\<rparr>) 0"

subsection \<open>Fixed-size fields\<close>

text \<open>
  The operations that consume their bytes at once take the value their pointer argument
  points to and return the value it points to afterwards.
\<close>

definition DecodeUint64 :: "Decoder \<Rightarrow> u64 \<Rightarrow> Decoder \<times> u64" where
  "DecodeUint64 dec n =
     (if err dec \<noteq> None then (dec, n)
      else case ReadFull (in_d dec) 8 of (e, bs, rest) \<Rightarrow>
        let dec1 = dec\<lparr>in_d := rest, err := e, buf := bs @ drop (length bs) (buf dec)\<rparr>
        in (dec1, Uint64 (take 8 (buf dec1))))"

definition DecodeUint256 :: "Decoder \<Rightarrow> u256 option \<Rightarrow> Decoder \<times> u256 option" where
  "DecodeUint256 dec n =
     (if err dec \<noteq> None then (dec, n)
      else case ReadFull (in_d dec) 32 of (e, bs, rest) \<Rightarrow>
        let dec1 = dec\<lparr>in_d := rest, err := e, buf := bs @ drop (length bs) (buf dec)\<rparr>
        in (dec1, Some (UnmarshalSSZ (take 32 (buf dec1)))))"

definition DecodeStaticBytes :: "Decoder \<Rightarrow> byte list \<Rightarrow> Decoder \<times> byte list" where
  "DecodeStaticBytes dec bytes =
     (if err dec \<noteq> None then (dec, bytes)
      else case ReadFull (in_d dec) (length bytes) of (e, bs, rest) \<Rightarrow>
        (dec\<lparr>in_d := rest, err := e\<rparr>, bs @ drop (length bs) bytes))"

text \<open>The loop of lines 145-149 and 195-199, over the items in index order.\<close>

fun DecodeStaticBytes_each :: "Decoder \<Rightarrow> byte list list \<Rightarrow> Decoder \<times> byte list list" where
  "DecodeStaticBytes_each dec [] = (dec, [])"
| "DecodeStaticBytes_each dec (b # bs) =
     (case DecodeStaticBytes dec b of (dec1, b1) \<Rightarrow>
        case DecodeStaticBytes_each dec1 bs of (dec2, bs1) \<Rightarrow> (dec2, b1 # bs1))"

definition DecodeArrayOfStaticBytes :: "Decoder \<Rightarrow> byte list list \<Rightarrow> Decoder \<times> byte list list" where
  "DecodeArrayOfStaticBytes dec bytes =
     (if err dec \<noteq> None then (dec, bytes) else DecodeStaticBytes_each dec bytes)"

text \<open>\<^verbatim>\<open>DecodeSSZ\<close> of a static record (see \<open>objtype\<close>): its fields in order.\<close>

definition DecodeSSZ_field :: "Decoder \<Rightarrow> fval \<Rightarrow> Decoder \<times> fval" where
  "DecodeSSZ_field dec v =
     (case v of
        VUint64 n \<Rightarrow> (case DecodeUint64 dec n of (dec1, n1) \<Rightarrow> (dec1, VUint64 n1))
      | VUint256 n \<Rightarrow> (case DecodeUint256 dec n of (dec1, n1) \<Rightarrow> (dec1, VUint256 n1))
      | VStaticBytes b \<Rightarrow> (case DecodeStaticBytes dec b of (dec1, b1) \<Rightarrow> (dec1, VStaticBytes b1)))"

fun DecodeSSZ :: "Decoder \<Rightarrow> object \<Rightarrow> Decoder \<times> object" where
  "DecodeSSZ dec [] = (dec, [])"
| "DecodeSSZ dec (v # vs) =
     (case DecodeSSZ_field dec v of (dec1, v1) \<Rightarrow>
        case DecodeSSZ dec1 vs of (dec2, vs1) \<Rightarrow> (dec2, v1 # vs1))"

subsection \<open>Offsets of variable-length fields\<close>

definition DecodeDynamicBytes :: "Decoder \<Rightarrow> blobptr \<Rightarrow> u32 \<Rightarrow> Decoder" where
  "DecodeDynamicBytes dec blob maxSize =
     (if err dec \<noteq> None then dec
      else case decodeOffset dec False of (e, dec1) \<Rightarrow>
        let dec2 = dec1\<lparr>err := e\<rparr> in
        if e \<noteq> None then dec2
        else dec2\<lparr>pend := pend dec2 @ [PendDynamicBytes blob maxSize]\<rparr>)"

text \<open>The type parameter \<open>T\<close> is the array length \<open>N\<close> of the items \<^verbatim>\<open>[N]byte\<close>.\<close>

definition DecodeSliceOfStaticBytes :: "nat \<Rightarrow> Decoder \<Rightarrow> nat \<Rightarrow> u32 \<Rightarrow> Decoder" where
  "DecodeSliceOfStaticBytes T dec bytes maxItems =
     (if err dec \<noteq> None then dec
      else case decodeOffset dec False of (e, dec1) \<Rightarrow>
        let dec2 = dec1\<lparr>err := e\<rparr> in
        if e \<noteq> None then dec2
        else dec2\<lparr>pend := pend dec2 @ [PendSliceOfStaticBytes T bytes maxItems]\<rparr>)"

definition DecodeSliceOfDynamicBytes :: "Decoder \<Rightarrow> nat \<Rightarrow> u32 \<Rightarrow> u32 \<Rightarrow> Decoder" where
  "DecodeSliceOfDynamicBytes dec blobs maxItems maxSize =
     (if err dec \<noteq> None then dec
      else case decodeOffset dec False of (e, dec1) \<Rightarrow>
        let dec2 = dec1\<lparr>err := e\<rparr> in
        if e \<noteq> None then dec2
        else dec2\<lparr>pend := pend dec2 @ [PendSliceOfDynamicBytes blobs maxItems maxSize]\<rparr>)"

definition DecodeSliceOfStaticObjects :: "objtype \<Rightarrow> Decoder \<Rightarrow> nat \<Rightarrow> u32 \<Rightarrow> Decoder" where
  "DecodeSliceOfStaticObjects T dec objects maxItems =
     (if err dec \<noteq> None then dec
      else if \<not> StaticSSZ T then dec\<lparr>err := Some ErrDynamicObjectInStaticSlot\<rparr>
      else case decodeOffset dec False of (e, dec1) \<Rightarrow>
        let dec2 = dec1\<lparr>err := e\<rparr> in
        if e \<noteq> None then dec2
        else dec2\<lparr>pend := pend dec2 @ [PendSliceOfStaticObjects T objects maxItems]\<rparr>)"

subsection \<open>Tail regions\<close>

definition decodeDynamicBytes ::
    "Decoder \<Rightarrow> memory \<Rightarrow> blobptr \<Rightarrow> u32 \<Rightarrow> gopanic + Decoder \<times> memory" where
  "decodeDynamicBytes dec mem blob maxSize =
     (if err dec \<noteq> None then Inr (dec, mem)
      else case retrieveSize dec of
        Inl p \<Rightarrow> Inl p
      | Inr (size', dec1) \<Rightarrow>
          if size' > maxSize then Inr (dec1\<lparr>err := Some ErrMaxLengthExceeded\<rparr>, mem)
          else
            let s = expand 0 (load_blob mem blob) size' in
            case DecodeStaticBytes dec1 (elems s) of (dec2, bs) \<Rightarrow>
              Inr (dec2, store_blob mem blob (fill s bs)))"

definition decodeSliceOfStaticBytes ::
    "nat \<Rightarrow> Decoder \<Rightarrow> memory \<Rightarrow> nat \<Rightarrow> u32 \<Rightarrow> gopanic + Decoder \<times> memory" where
  "decodeSliceOfStaticBytes T dec mem bytes maxItems =
     (if err dec \<noteq> None then Inr (dec, mem)
      else case retrieveSize dec of
        Inl p \<Rightarrow> Inl p
      | Inr (size', dec1) \<Rightarrow>
          if size' = 0 then Inr (dec1, mem)
          else
            let itemSize = (of_nat T :: u32) in
            if itemSize = 0 then Inl DivideByZero
            else if size' mod itemSize \<noteq> 0
              then Inr (dec1\<lparr>err := Some ErrDynamicStaticsIndivisible\<rparr>, mem)
            else
              let itemCount = size' div itemSize in
              if itemCount > maxItems then Inr (dec1\<lparr>err := Some ErrMaxItemsExceeded\<rparr>, mem)
              else
                let s = expand (replicate T 0) (bytes_vars mem bytes) itemCount in
                case DecodeStaticBytes_each dec1 (elems s) of (dec2, xs) \<Rightarrow>
                  Inr (dec2, mem\<lparr>bytes_vars := (bytes_vars mem)(bytes := fill s xs)\<rparr>))"

text \<open>The loop of lines 321-326.\<close>

fun DecodeSSZ_each :: "objtype \<Rightarrow> Decoder \<Rightarrow> object option list \<Rightarrow> Decoder \<times> object option list" where
  "DecodeSSZ_each T dec [] = (dec, [])"
| "DecodeSSZ_each T dec (x # xs) =
     (case DecodeSSZ dec (case x of None \<Rightarrow> new T | Some ob \<Rightarrow> ob) of (dec1, ob1) \<Rightarrow>
        case DecodeSSZ_each T dec1 xs of (dec2, xs1) \<Rightarrow> (dec2, Some ob1 # xs1))"

definition decodeSliceOfStaticObjects ::
    "objtype \<Rightarrow> Decoder \<Rightarrow> memory \<Rightarrow> nat \<Rightarrow> u32 \<Rightarrow> gopanic + Decoder \<times> memory" where
  "decodeSliceOfStaticObjects T dec mem objects maxItems =
     (if err dec \<noteq> None then Inr (dec, mem)
      else case retrieveSize dec of
        Inl p \<Rightarrow> Inl p
      | Inr (size', dec1) \<Rightarrow>
          if size' = 0 then Inr (dec1, mem)
          else
            let itemSize = SizeSSZ T in
            if itemSize = 0 then Inl DivideByZero
            else if size' mod itemSize \<noteq> 0
              then Inr (dec1\<lparr>err := Some ErrDynamicStaticsIndivisible\<rparr>, mem)
            else
              let itemCount = size' div itemSize in
              if itemCount > maxItems then Inr (dec1\<lparr>err := Some ErrMaxItemsExceeded\<rparr>, mem)
              else
                let s = expand None (objects_vars mem objects) itemCount in
                case DecodeSSZ_each T dec1 (elems s) of (dec2, xs) \<Rightarrow>
                  Inr (dec2, mem\<lparr>objects_vars := (objects_vars mem)(objects := fill s xs)\<rparr>))"

text \<open>
  Lines 242-268 of \<^verbatim>\<open>decodeSliceOfDynamicBytes\<close>: what runs between the \<^verbatim>\<open>defer\<close> of
  \<open>ascendFromDynamic\<close> and the return.
\<close>

definition decodeSliceOfDynamicBytes_items ::
    "Decoder \<Rightarrow> memory \<Rightarrow> nat \<Rightarrow> u32 \<Rightarrow> u32 \<Rightarrow> Decoder \<times> memory" where
  "decodeSliceOfDynamicBytes_items dec mem blobs maxItems maxSize =
     (case decodeOffset dec True of (e, dec1) \<Rightarrow>
        if e \<noteq> None then (dec1\<lparr>err := e\<rparr>, mem)
        else if offset dec1 mod 4 \<noteq> 0 then (dec1\<lparr>err := Some ErrBadCounterOffset\<rparr>, mem)
        else
          let items = drop_bit 2 (offset dec1) in
          if items > maxItems then (dec1\<lparr>err := Some ErrMaxItemsExceeded\<rparr>, mem)
          else
            let mem1 = mem\<lparr>blobs_vars := (blobs_vars mem)
                         (blobs := expand (Slice [] 0) (blobs_vars mem blobs) items)\<rparr>;
                dec2 = dec1\<lparr>pend := pend dec1 @ [PendFirstBlob blobs maxSize]\<rparr>
            in (fold (\<lambda>i d. DecodeDynamicBytes d (BlobElem blobs i) maxSize) [1..<unat items] dec2,
                mem1))"

subsection \<open>The offset invariant and example states\<close>

text \<open>
  What the checks of \<open>decodeOffset\<close> establish for the offsets queued in a container:
  they do not decrease and none exceeds the container's length. While the offsets of a
  container are being read, \<open>offset\<close> is at least the last of them.
\<close>

definition offsets_validated :: "Decoder \<Rightarrow> bool" where
  "offsets_validated dec =
     (case offsets dec of
        None \<Rightarrow> True
      | Some os \<Rightarrow> sorted os \<and> (\<forall>x \<in> set os. x \<le> length_d dec))"

definition offset_is_last :: "Decoder \<Rightarrow> bool" where
  "offset_is_last dec =
     (case offsets dec of
        None \<Rightarrow> True
      | Some os \<Rightarrow> os \<noteq> [] \<longrightarrow> last os \<le> offset dec)"

text \<open>Go's zero value of \<^verbatim>\<open>Decoder\<close>, and a memory whose variables are all \<^verbatim>\<open>nil\<close> slices.\<close>

definition Decoder0 :: Decoder where
  "Decoder0 = \<lparr>in_d = [], err = None, dyn = False, buf = replicate 32 0, length_d = 0,
                lengths = [], offset = 0, offsets = None, offsetss = [], pend = [],
                pends = []\<rparr>"

definition memory0 :: memory where
  "memory0 = \<lparr>blob_vars = (\<lambda>v. Slice [] 0), bytes_vars = (\<lambda>v. Slice [] 0),
               blobs_vars = (\<lambda>v. Slice [] 0), objects_vars = (\<lambda>v. Slice [] 0)\<rparr>"

text \<open>
  Three notions for the proofs about nested containers: the part of the decoder that
  \<open>descendIntoDynamic\<close> pushes and \<open>ascendFromDynamic\<close> pops, the closures that
  \<open>decodeSliceOfDynamicBytes\<close> queues for the items of the slice \<open>blobs\<close>, and a queue
  that has an offset for each of its closures unless an error is latched.
\<close>

definition stacks :: "Decoder \<Rightarrow> u32 \<times> u32 list \<times> u32 list option list \<times> pending list list" where
  "stacks dec = (length_d dec, lengths dec, offsetss dec, pends dec)"

fun item_closure :: "nat \<Rightarrow> pending \<Rightarrow> bool" where
  "item_closure blobs (PendDynamicBytes blob maxSize) = True"
| "item_closure blobs (PendFirstBlob v maxSize) = (v = blobs)"
| "item_closure blobs p = False"

definition queue_served :: "pending list \<Rightarrow> Decoder \<Rightarrow> bool" where
  "queue_served ps dec = (err dec \<noteq> None \<or> length ps \<le> length (offsets_list dec))"

subsection \<open>Running the queue of a container\<close>

text \<open>How many closures of a queue descend into a nested container when they run.\<close>

fun descents :: "pending list \<Rightarrow> nat" where
  "descents [] = 0"
| "descents (PendSliceOfDynamicBytes blobs maxItems maxSize # ps) = Suc (descents ps)"
| "descents (p # ps) = descents ps"

lemma descents_Cons: "descents (p # ps) = descents [p] + descents ps"
  by (cases p) simp_all

lemma descents_hd_less: "descents [p] \<noteq> descents (p # ps) \<Longrightarrow> descents [p] < descents (p # ps)"
  using descents_Cons [of p ps] by simp

lemma descents_tl_less: "descents ps \<noteq> descents (p # ps) \<Longrightarrow> descents ps < descents (p # ps)"
  using descents_Cons [of p ps] by simp

lemma descents_append: "descents (ps @ qs) = descents ps + descents qs"
  by (induction ps rule: descents.induct) simp_all

lemma decodeOffset_pend: "decodeOffset dec list = (e, dec1) \<Longrightarrow> pend dec1 = pend dec"
  by (auto simp: decodeOffset_def Let_def split: prod.splits if_splits)

lemma DecodeDynamicBytes_descents:
  "descents (pend (DecodeDynamicBytes dec blob maxSize)) = descents (pend dec)"
  by (auto simp: DecodeDynamicBytes_def Let_def descents_append split: prod.splits
           dest: decodeOffset_pend)

lemma fold_DecodeDynamicBytes_descents:
  "descents (pend (fold (\<lambda>i d. DecodeDynamicBytes d (f i) maxSize) is dec)) = descents (pend dec)"
  by (induction "is" arbitrary: dec) (simp_all add: DecodeDynamicBytes_descents)

lemma decodeSliceOfDynamicBytes_items_descents:
  "decodeSliceOfDynamicBytes_items dec mem blobs maxItems maxSize = (dec2, mem2)
   \<Longrightarrow> descents (pend dec2) = descents (pend dec)"
  by (auto simp: decodeSliceOfDynamicBytes_items_def Let_def descents_append
                 fold_DecodeDynamicBytes_descents
           split: prod.splits if_splits dest: decodeOffset_pend)

lemma pend_descendIntoDynamic: "pend (descendIntoDynamic dec n) = []"
  by (simp add: descendIntoDynamic_def OffsetDynamics_def)

lemma descended_items_descents:
  "decodeSliceOfDynamicBytes_items (descendIntoDynamic dec n) mem blobs maxItems maxSize
     = (dec2, mem2) \<Longrightarrow> descents (pend dec2) = 0"
  by (simp add: decodeSliceOfDynamicBytes_items_descents pend_descendIntoDynamic)

text \<open>
  Running the queue. \<open>run_pend\<close> calls one closure, \<open>range_pend\<close> is the loop of lines
  59-61 (over the queue as it stands when the loop starts); line 264's closure indexes
  \<^verbatim>\<open>(*blobs)[0]\<close> when it runs.
\<close>

function run_pend :: "pending \<Rightarrow> Decoder \<Rightarrow> memory \<Rightarrow> gopanic + Decoder \<times> memory"
  and range_pend :: "pending list \<Rightarrow> Decoder \<Rightarrow> memory \<Rightarrow> gopanic + Decoder \<times> memory"
  and dynamicDone :: "Decoder \<Rightarrow> memory \<Rightarrow> gopanic + Decoder \<times> memory"
  and ascendFromDynamic :: "Decoder \<Rightarrow> memory \<Rightarrow> gopanic + Decoder \<times> memory"
  and decodeSliceOfDynamicBytes ::
    "Decoder \<Rightarrow> memory \<Rightarrow> nat \<Rightarrow> u32 \<Rightarrow> u32 \<Rightarrow> gopanic + Decoder \<times> memory"
where
  "run_pend (PendDynamicBytes blob maxSize) dec mem = decodeDynamicBytes dec mem blob maxSize"
| "run_pend (PendSliceOfStaticBytes T bytes maxItems) dec mem =
     decodeSliceOfStaticBytes T dec mem bytes maxItems"
| "run_pend (PendSliceOfDynamicBytes blobs maxItems maxSize) dec mem =
     decodeSliceOfDynamicBytes dec mem blobs maxItems maxSize"
| "run_pend (PendFirstBlob blobs maxSize) dec mem =
     (if len (blobs_vars mem blobs) = 0 then Inl IndexOutOfRange
      else decodeDynamicBytes dec mem (BlobElem blobs 0) maxSize)"
| "run_pend (PendSliceOfStaticObjects T objects maxItems) dec mem =
     decodeSliceOfStaticObjects T dec mem objects maxItems"
| "range_pend [] dec mem = Inr (dec, mem)"
| "range_pend (p # ps) dec mem =
     (case run_pend p dec mem of
        Inl x \<Rightarrow> Inl x
      | Inr (dec1, mem1) \<Rightarrow> range_pend ps dec1 mem1)"
| "dynamicDone dec mem =
     (case range_pend (pend dec) dec mem of
        Inl x \<Rightarrow> Inl x
      | Inr (dec1, mem1) \<Rightarrow>
          if pends dec1 = [] then Inl IndexOutOfRange
          else
            let dec2 = dec1\<lparr>pend := last (pends dec1), pends := butlast (pends dec1)\<rparr> in
            if offsetss dec2 = [] then Inl IndexOutOfRange
            else Inr (dec2\<lparr>offsets := last (offsetss dec2),
                              offsetss := butlast (offsetss dec2)\<rparr>, mem1))"
| "ascendFromDynamic dec mem =
     (case dynamicDone dec mem of
        Inl x \<Rightarrow> Inl x
      | Inr (dec1, mem1) \<Rightarrow>
          if lengths dec1 = [] then Inl IndexOutOfRange
          else Inr (dec1\<lparr>length_d := last (lengths dec1),
                            lengths := butlast (lengths dec1)\<rparr>, mem1))"
| "decodeSliceOfDynamicBytes dec mem blobs maxItems maxSize =
     (if err dec \<noteq> None then Inr (dec, mem)
      else case retrieveSize dec of
        Inl x \<Rightarrow> Inl x
      | Inr (size', dec1) \<Rightarrow>
          if size' = 0 then Inr (dec1, mem)
          else if size' < 4 then Inr (dec1\<lparr>err := Some ErrShortCounterOffset\<rparr>, mem)
          else
            case decodeSliceOfDynamicBytes_items (descendIntoDynamic dec1 size') mem blobs
                   maxItems maxSize of
              (dec2, mem2) \<Rightarrow> ascendFromDynamic dec2 mem2)"
  by pat_completeness auto
termination
proof (relation "inv_image (less_than <*lex*> less_than)
    (\<lambda>x. case x of
       Inl (Inl (p, dec, mem)) \<Rightarrow> (descents [p], 1)
     | Inl (Inr (ps, dec, mem)) \<Rightarrow> (descents ps, 2 + 2 * length ps)
     | Inr (Inl (dec, mem)) \<Rightarrow> (descents (pend dec), 3 + 2 * length (pend dec))
     | Inr (Inr (Inl (dec, mem))) \<Rightarrow> (descents (pend dec), 4 + 2 * length (pend dec))
     | Inr (Inr (Inr (dec, mem, blobs, maxItems, maxSize))) \<Rightarrow> (1, 0))")
qed (auto intro: descents_hd_less descents_tl_less descended_items_descents
         split: prod.splits)

declare dynamicDone.simps [simp del] ascendFromDynamic.simps [simp del]
  decodeSliceOfDynamicBytes.simps [simp del]

section \<open>Properties\<close>

subsection \<open>Reading and validating offsets\<close>


lemma decodeOffset_read:
  assumes "in_d dec = b0 # b1 # b2 # b3 # rest"
  shows "decodeOffset dec list =
     (let off = Uint32 [b0, b1, b2, b3];
          dec1 = dec\<lparr>in_d := rest, buf := [b0, b1, b2, b3] @ drop 4 (buf dec)\<rparr> in
      if off > length_d dec then (Some ErrOffsetBeyondCapacity, dec1)
      else if offsets dec = None \<and> \<not> list \<and> offset dec \<noteq> off
        then (Some ErrFirstOffsetMismatch, dec1)
      else if offsets dec \<noteq> None \<and> offset dec > off
        then (Some ErrBadOffsetProgression, dec1)
      else (None, dec1\<lparr>offset := off, offsets := Some (offsets_list dec @ [off])\<rparr>))"
  using assms by (simp add: decodeOffset_def ReadFull_def Let_def offsets_list_def eval_nat_numeral)

lemma decodeOffset_accepts:
  assumes "decodeOffset dec list = (None, dec')"
  shows "offset dec' \<le> length_d dec
       \<and> (offsets dec \<noteq> None \<longrightarrow> offset dec \<le> offset dec')
       \<and> (offsets dec = None \<and> \<not> list \<longrightarrow> offset dec = offset dec')
       \<and> offsets dec' = Some (offsets_list dec @ [offset dec'])
       \<and> length_d dec' = length_d dec"
proof -
  obtain e bs rest where r: "ReadFull (in_d dec) 4 = (e, bs, rest)"
    by (cases "ReadFull (in_d dec) 4")
  define off where "off = Uint32 (take 4 (bs @ drop (length bs) (buf dec)))"
  from assms r have "e = None"
    by (auto simp: decodeOffset_def Let_def split: if_splits)
  with assms r have
    "\<not> length_d dec < off"
    "\<not> (offsets dec = None \<and> \<not> list \<and> offset dec \<noteq> off)"
    "\<not> (offsets dec \<noteq> None \<and> off < offset dec)"
    "dec' = dec\<lparr>in_d := rest, buf := bs @ drop (length bs) (buf dec), offset := off,
                   offsets := Some (offsets_list dec @ [off])\<rparr>"
    unfolding off_def
    by (simp_all add: decodeOffset_def Let_def offsets_list_def split: if_splits)
  then show ?thesis by (auto simp: not_less)
qed

lemma decodeOffset_rejects:
  "decodeOffset dec list = (Some e, dec') \<Longrightarrow>
     offsets dec' = offsets dec \<and> offset dec' = offset dec \<and> length_d dec' = length_d dec"
  by (auto simp: decodeOffset_def Let_def split: prod.splits if_splits)

lemma retrieveSize_Some:
  assumes "offsets dec = Some os" and "os \<noteq> []"
  shows "retrieveSize dec =
           Inr (if 2 \<le> length os then os ! 1 - os ! 0 else length_d dec - os ! 0,
                dec\<lparr>offsets := Some (tl os)\<rparr>)"
  using assms by (cases os) (auto simp: retrieveSize_def offsets_list_def Let_def drop_Suc Suc_le_eq)


lemma sorted_le_last: "sorted xs \<Longrightarrow> x \<in> set xs \<Longrightarrow> x \<le> last xs"
  by (induction xs) auto

lemma offsets_validated_decodeOffset:
  assumes "offsets_validated dec" and "offset_is_last dec"
  shows "offsets_validated (snd (decodeOffset dec list)) \<and> offset_is_last (snd (decodeOffset dec list))"
proof (cases "decodeOffset dec list")
  case (Pair e dec')
  show ?thesis
  proof (cases e)
    case None
    with Pair have d: "decodeOffset dec list = (None, dec')" by simp
    note a = decodeOffset_accepts [OF d]
    show ?thesis
    proof (cases "offsets dec")
      case None
      with a show ?thesis
        by (simp add: Pair offsets_validated_def offset_is_last_def offsets_list_def)
    next
      case (Some os)
      with assms have s: "sorted os" and b: "\<forall>x \<in> set os. x \<le> length_d dec"
        and l: "os \<noteq> [] \<longrightarrow> last os \<le> offset dec"
        by (simp_all add: offsets_validated_def offset_is_last_def)
      from a Some have le: "offset dec \<le> offset dec'" by simp
      have "\<forall>x \<in> set os. x \<le> offset dec'"
      proof
        fix x assume x: "x \<in> set os"
        then have "os \<noteq> []" by auto
        with l have "last os \<le> offset dec" by simp
        with sorted_le_last [OF s x] le show "x \<le> offset dec'" by simp
      qed
      with s b a Some show ?thesis
        by (simp add: Pair offsets_validated_def offset_is_last_def offsets_list_def sorted_append)
    qed
  next
    case (Some x)
    with Pair decodeOffset_rejects [of dec list x dec'] assms show ?thesis
      by (auto simp: offsets_validated_def offset_is_last_def split: option.splits)
  qed
qed

text \<open>
  The operations that start a container and declare its variable-length fields establish
  and keep the two invariants.
\<close>

lemma validated_cong:
  assumes "offsets d' = offsets d" and "offset d' = offset d" and "length_d d' = length_d d"
  shows "offsets_validated d' = offsets_validated d" and "offset_is_last d' = offset_is_last d"
  using assms by (simp_all add: offsets_validated_def offset_is_last_def split: option.splits)

lemma OffsetDynamics_validated:
  "offsets_validated (OffsetDynamics dec n) \<and> offset_is_last (OffsetDynamics dec n)"
  by (simp add: OffsetDynamics_def offsets_validated_def offset_is_last_def)

lemma descendIntoDynamic_validated:
  "offsets_validated (descendIntoDynamic dec n) \<and> offset_is_last (descendIntoDynamic dec n)"
  by (simp add: descendIntoDynamic_def OffsetDynamics_validated)

lemma declared_offset_validated:
  assumes "offsets_validated dec" and "offset_is_last dec"
      and "dec' = (if err dec \<noteq> None then dec
                   else case decodeOffset dec False of (e, dec1) \<Rightarrow>
                     let dec2 = dec1\<lparr>err := e\<rparr> in
                     if e \<noteq> None then dec2 else dec2\<lparr>pend := pend dec2 @ [p]\<rparr>)"
  shows "offsets_validated dec' \<and> offset_is_last dec'"
proof (cases "err dec \<noteq> None")
  case True
  with assms show ?thesis by simp
next
  case False
  obtain e dec1 where d: "decodeOffset dec False = (e, dec1)"
    by (cases "decodeOffset dec False")
  from offsets_validated_decodeOffset [OF assms(1,2), of False] d
  have v: "offsets_validated dec1" "offset_is_last dec1" by simp_all
  have "offsets dec' = offsets dec1" "offset dec' = offset dec1" "length_d dec' = length_d dec1"
    using False d assms(3) by (simp_all add: Let_def)
  from validated_cong [OF this] v show ?thesis by simp
qed

lemma DecodeDynamicBytes_validated:
  assumes "offsets_validated dec" and "offset_is_last dec"
  shows "offsets_validated (DecodeDynamicBytes dec blob maxSize)
       \<and> offset_is_last (DecodeDynamicBytes dec blob maxSize)"
  by (rule declared_offset_validated [OF assms]) (simp add: DecodeDynamicBytes_def)

lemma DecodeSliceOfStaticBytes_validated:
  assumes "offsets_validated dec" and "offset_is_last dec"
  shows "offsets_validated (DecodeSliceOfStaticBytes N dec bytes maxItems)
       \<and> offset_is_last (DecodeSliceOfStaticBytes N dec bytes maxItems)"
  by (rule declared_offset_validated [OF assms]) (simp add: DecodeSliceOfStaticBytes_def)

lemma DecodeSliceOfDynamicBytes_validated:
  assumes "offsets_validated dec" and "offset_is_last dec"
  shows "offsets_validated (DecodeSliceOfDynamicBytes dec blobs maxItems maxSize)
       \<and> offset_is_last (DecodeSliceOfDynamicBytes dec blobs maxItems maxSize)"
  by (rule declared_offset_validated [OF assms]) (simp add: DecodeSliceOfDynamicBytes_def)

lemma DecodeSliceOfStaticObjects_validated:
  assumes "offsets_validated dec" and "offset_is_last dec"
  shows "offsets_validated (DecodeSliceOfStaticObjects T dec objects maxItems)
       \<and> offset_is_last (DecodeSliceOfStaticObjects T dec objects maxItems)"
proof (cases "err dec = None \<and> \<not> StaticSSZ T")
  case True
  then have "DecodeSliceOfStaticObjects T dec objects maxItems
               = dec\<lparr>err := Some ErrDynamicObjectInStaticSlot\<rparr>"
    by (simp add: DecodeSliceOfStaticObjects_def)
  with assms show ?thesis
    by (simp add: offsets_validated_def offset_is_last_def split: option.splits)
next
  case False
  show ?thesis
    by (rule declared_offset_validated [OF assms]) (use False in \<open>auto simp: DecodeSliceOfStaticObjects_def\<close>)
qed

text \<open>Two offsets read one after the other.\<close>

lemma decodeOffset_twice:
  assumes "decodeOffset dec0 list0 = (None, dec)" and "in_d dec = b0 # b1 # b2 # b3 # rest"
  shows "fst (decodeOffset dec list) = Some ErrBadOffsetProgression
           \<longleftrightarrow> Uint32 [b0, b1, b2, b3] < offset dec"
proof -
  from decodeOffset_accepts [OF assms(1)]
  have "offsets dec \<noteq> None" "offset dec \<le> length_d dec" by simp_all
  with assms(2) show ?thesis
    by (auto simp: decodeOffset_read Let_def)
qed

text \<open>
  An offset equal to its successor leaves a tail region of length zero.
\<close>

lemma retrieveSize_equal_offsets:
  "offsets dec = Some (x # x # os) \<Longrightarrow> fst (projr (retrieveSize dec)) = 0"
  using retrieveSize_Some [of dec "x # x # os"] by simp

subsection \<open>The claims about offsets\<close>



text \<open>
  C2: reading an offset that is not the first of its container (the queue is not
  \<^verbatim>\<open>nil\<close>), when the previous offset passed the capacity check of line 335 (as it did
  when it was read, \<open>decodeOffset_accepts\<close> and \<open>decodeOffset_twice\<close>), fails with
  \<open>ErrBadOffsetProgression\<close> if and only if the decoded offset is strictly less than
  the previous one; an offset equal to the previous one is accepted and queued.
\<close>

theorem decodeOffset_bad_progression_iff:
  assumes "offsets dec = Some os"
      and "offset dec \<le> length_d dec"
      and "in_d dec = b0 # b1 # b2 # b3 # rest"
  shows "(fst (decodeOffset dec list) = Some ErrBadOffsetProgression
            \<longleftrightarrow> Uint32 [b0, b1, b2, b3] < offset dec)
       \<and> (Uint32 [b0, b1, b2, b3] = offset dec \<longrightarrow>
            fst (decodeOffset dec list) = None
            \<and> offsets (snd (decodeOffset dec list)) = Some (os @ [offset dec]))"
  using assms by (auto simp: decodeOffset_read Let_def offsets_list_def)

theorem decodeOffset_bad_progression_iff_witness:
  "fst (decodeOffset (Decoder0\<lparr>in_d := [8, 0, 0, 0], length_d := 20, offset := 12,
                                offsets := Some [12]\<rparr>) False)
     = Some ErrBadOffsetProgression
   \<and> Uint32 [8, 0, 0, 0] < 12
   \<and> fst (decodeOffset (Decoder0\<lparr>in_d := [12, 0, 0, 0], length_d := 20, offset := 12,
                                  offsets := Some [12]\<rparr>) False) = None
   \<and> offsets (snd (decodeOffset (Decoder0\<lparr>in_d := [12, 0, 0, 0], length_d := 20,
                                            offset := 12, offsets := Some [12]\<rparr>) False))
       = Some [12, 12]"
  using decodeOffset_bad_progression_iff
          [of "Decoder0\<lparr>in_d := [8, 0, 0, 0], length_d := 20, offset := 12,
                        offsets := Some [12]\<rparr>" "[12]" 8 0 0 0 "[]" False]
        decodeOffset_bad_progression_iff
          [of "Decoder0\<lparr>in_d := [12, 0, 0, 0], length_d := 20, offset := 12,
                        offsets := Some [12]\<rparr>" "[12]" 12 0 0 0 "[]" False]
  by (simp add: Decoder0_def Uint32_def)

text \<open>
  C3, as stated, fails: the capacity check of line 335 comes first, so a first offset that
  differs from the expected head size and exceeds the container's length is refused with
  \<open>ErrOffsetBeyondCapacity\<close>. Here the container has 8 bytes, the head size is 4 and the
  offset read is 100.
\<close>

theorem first_offset_mismatch_counterexample:
  "\<not> (fst (decodeOffset (Decoder0\<lparr>in_d := [100, 0, 0, 0], length_d := 8, offset := 4\<rparr>) False)
          = Some ErrFirstOffsetMismatch
        \<longleftrightarrow> Uint32 [100, 0, 0, 0] \<noteq> offset (Decoder0\<lparr>in_d := [100, 0, 0, 0], length_d := 8,
                                                      offset := 4\<rparr>))
   \<and> fst (decodeOffset (Decoder0\<lparr>in_d := [100, 0, 0, 0], length_d := 8, offset := 4\<rparr>) False)
       = Some ErrOffsetBeyondCapacity"
  by (simp add: decodeOffset_read [of _ 100 0 0 0 "[]"] Decoder0_def Uint32_def)

text \<open>
  C3, amended: when the first offset of a container is read by a declaration that is not
  a list counter, decoding fails with \<open>ErrFirstOffsetMismatch\<close> if and only if the offset
  is at most the container's length and differs from the expected head size.
\<close>

theorem decodeOffset_first_mismatch_iff:
  assumes "offsets dec = None"
      and "in_d dec = b0 # b1 # b2 # b3 # rest"
  shows "fst (decodeOffset dec False) = Some ErrFirstOffsetMismatch
           \<longleftrightarrow> Uint32 [b0, b1, b2, b3] \<le> length_d dec \<and> Uint32 [b0, b1, b2, b3] \<noteq> offset dec"
  using assms by (auto simp: decodeOffset_read Let_def)

theorem decodeOffset_first_mismatch_iff_witness:
  "fst (decodeOffset (Decoder0\<lparr>in_d := [6, 0, 0, 0], length_d := 8, offset := 4\<rparr>) False)
     = Some ErrFirstOffsetMismatch
   \<and> Uint32 [6, 0, 0, 0] \<le> 8 \<and> Uint32 [6, 0, 0, 0] \<noteq> 4"
  using decodeOffset_first_mismatch_iff
          [of "Decoder0\<lparr>in_d := [6, 0, 0, 0], length_d := 8, offset := 4\<rparr>" 6 0 0 0 "[]"]
  by (simp add: Decoder0_def Uint32_def)

text \<open>
  C4: an offset that exceeds the container's length is refused with
  \<open>ErrOffsetBeyondCapacity\<close> and is not queued, so every offset that is accepted is at
  most the container's length; each operation that declares a variable-length field
  latches the error.
\<close>

theorem decodeOffset_beyond_capacity:
  assumes "in_d dec = b0 # b1 # b2 # b3 # rest"
  shows "(length_d dec < Uint32 [b0, b1, b2, b3] \<longrightarrow>
            fst (decodeOffset dec list) = Some ErrOffsetBeyondCapacity
            \<and> offsets (snd (decodeOffset dec list)) = offsets dec)
       \<and> (fst (decodeOffset dec list) = None \<longrightarrow>
            Uint32 [b0, b1, b2, b3] \<le> length_d dec
            \<and> offsets (snd (decodeOffset dec list)) = Some (offsets_list dec @ [Uint32 [b0, b1, b2, b3]]))
       \<and> (err dec = None \<longrightarrow> length_d dec < Uint32 [b0, b1, b2, b3] \<longrightarrow>
            err (DecodeDynamicBytes dec blob maxSize) = Some ErrOffsetBeyondCapacity
            \<and> err (DecodeSliceOfStaticBytes N dec bytes maxItems) = Some ErrOffsetBeyondCapacity
            \<and> err (DecodeSliceOfDynamicBytes dec blobs maxItems maxSize) = Some ErrOffsetBeyondCapacity
            \<and> (StaticSSZ T \<longrightarrow>
                 err (DecodeSliceOfStaticObjects T dec objects maxItems) = Some ErrOffsetBeyondCapacity))"
  using assms
  by (auto simp: decodeOffset_read Let_def DecodeDynamicBytes_def DecodeSliceOfStaticBytes_def
        DecodeSliceOfDynamicBytes_def DecodeSliceOfStaticObjects_def split: if_splits)

theorem decodeOffset_beyond_capacity_witness:
  "fst (decodeOffset (Decoder0\<lparr>in_d := [9, 0, 0, 0], length_d := 8, offset := 4\<rparr>) True)
     = Some ErrOffsetBeyondCapacity
   \<and> offsets (snd (decodeOffset (Decoder0\<lparr>in_d := [9, 0, 0, 0], length_d := 8,
                                            offset := 4\<rparr>) True)) = None
   \<and> err (DecodeDynamicBytes (Decoder0\<lparr>in_d := [9, 0, 0, 0], length_d := 8, offset := 4\<rparr>)
            (BlobVar 0) 10) = Some ErrOffsetBeyondCapacity"
  using decodeOffset_beyond_capacity
          [of "Decoder0\<lparr>in_d := [9, 0, 0, 0], length_d := 8, offset := 4\<rparr>" 9 0 0 0 "[]" True
              "BlobVar 0" 10]
  by (simp add: Decoder0_def Uint32_def)

text \<open>
  C10: the checks made when an offset is read keep the offsets of the queue sorted and at
  most the container's length (\<open>offsets_validated\<close>), and under that invariant the
  32-bit subtraction of \<open>retrieveSize\<close> does not wrap around: the size is the difference
  of the two numbers as integers, it is at most the container's length, and the invariant
  still holds for the popped queue.
\<close>

theorem retrieveSize_no_wrap:
  assumes "offsets_validated dec"
  shows "(offset_is_last dec \<longrightarrow>
            offsets_validated (snd (decodeOffset dec list))
            \<and> offset_is_last (snd (decodeOffset dec list)))
       \<and> (\<forall>os. offsets dec = Some os \<and> os \<noteq> [] \<longrightarrow>
            (\<exists>sz dec'. retrieveSize dec = Inr (sz, dec')
               \<and> uint sz = uint (if 2 \<le> length os then os ! 1 else length_d dec) - uint (os ! 0)
               \<and> sz \<le> length_d dec
               \<and> offsets_validated dec' \<and> (offset_is_last dec \<longrightarrow> offset_is_last dec')))"
proof (intro conjI impI allI)
  assume "offset_is_last dec"
  with offsets_validated_decodeOffset [OF assms]
  show "offsets_validated (snd (decodeOffset dec list))"
    and "offset_is_last (snd (decodeOffset dec list))" by simp_all
next
  fix os assume "offsets dec = Some os \<and> os \<noteq> []"
  then have o: "offsets dec = Some os" and ne: "os \<noteq> []" by simp_all
  let ?nxt = "if 2 \<le> length os then os ! 1 else length_d dec"
  let ?dec' = "dec\<lparr>offsets := Some (tl os)\<rparr>"
  from assms o have s: "sorted os" and b: "\<forall>x \<in> set os. x \<le> length_d dec"
    by (simp_all add: offsets_validated_def)
  obtain o0 rest where os: "os = o0 # rest" using ne by (cases os) auto
  have le: "o0 \<le> ?nxt" and nb: "?nxt \<le> length_d dec"
    using s b os by (cases rest; simp)+
  have r: "retrieveSize dec = Inr (?nxt - o0, ?dec')"
    using retrieveSize_Some [OF o ne] os by simp
  have u: "uint (?nxt - o0) = uint ?nxt - uint o0"
    using le by (simp add: uint_minus_simple_alt)
  have "?nxt - o0 \<le> ?nxt"
    using le by (simp add: word_sub_le)
  with nb have sb: "?nxt - o0 \<le> length_d dec" by simp
  have v: "offsets_validated ?dec'"
    using s b os by (cases rest) (simp_all add: offsets_validated_def)
  have w: "offset_is_last dec \<longrightarrow> offset_is_last ?dec'"
    using o os by (cases rest) (simp_all add: offset_is_last_def)
  from r u sb v w os
  show "\<exists>sz dec'. retrieveSize dec = Inr (sz, dec')
               \<and> uint sz = uint (if 2 \<le> length os then os ! 1 else length_d dec) - uint (os ! 0)
               \<and> sz \<le> length_d dec
               \<and> offsets_validated dec' \<and> (offset_is_last dec \<longrightarrow> offset_is_last dec')"
    by auto
qed

theorem retrieveSize_no_wrap_witness:
  "offsets_validated (snd (decodeOffset (Decoder0\<lparr>in_d := [16, 0, 0, 0], length_d := 20,
                                                   offset := 12, offsets := Some [8, 12]\<rparr>) False))
   \<and> offsets (snd (decodeOffset (Decoder0\<lparr>in_d := [16, 0, 0, 0], length_d := 20,
                                                   offset := 12, offsets := Some [8, 12]\<rparr>) False))
      = Some [8, 12, 16]
   \<and> (\<exists>sz dec'. retrieveSize (Decoder0\<lparr>in_d := [16, 0, 0, 0], length_d := 20, offset := 12,
                                          offsets := Some [8, 12]\<rparr>) = Inr (sz, dec')
         \<and> uint sz = 4 \<and> sz \<le> 20 \<and> offsets_validated dec')"
  using retrieveSize_no_wrap
          [of "Decoder0\<lparr>in_d := [16, 0, 0, 0], length_d := 20, offset := 12,
                        offsets := Some [8, 12]\<rparr>" False]
  by (auto simp add: Decoder0_def offsets_validated_def offset_is_last_def
        decodeOffset_read [of _ 16 0 0 0 "[]"] Uint32_def offsets_list_def)

subsection \<open>Running the items of a slice of variable-length byte strings\<close>

lemma DecodeSSZ_field_latched: "err dec \<noteq> None \<Longrightarrow> DecodeSSZ_field dec v = (dec, v)"
  by (cases v) (simp_all add: DecodeSSZ_field_def DecodeUint64_def DecodeUint256_def
      DecodeStaticBytes_def)

lemma DecodeSSZ_latched: "err dec \<noteq> None \<Longrightarrow> DecodeSSZ dec ob = (dec, ob)"
  by (induction ob) (simp_all add: DecodeSSZ_field_latched)

lemma decodeOffset_frame:
  assumes "decodeOffset dec list = (e, dec')"
  shows "stacks dec' = stacks dec \<and> pend dec' = pend dec \<and> err dec' = err dec"
  using assms by (auto simp: decodeOffset_def Let_def stacks_def split: prod.splits if_splits)

lemma DecodeDynamicBytes_frame:
  "stacks (DecodeDynamicBytes dec blob maxSize) = stacks dec"
proof (cases "decodeOffset dec False")
  case (Pair e dec')
  from decodeOffset_frame [OF Pair] show ?thesis
    by (simp add: DecodeDynamicBytes_def Pair Let_def stacks_def)
qed

lemma DecodeDynamicBytes_queue:
  assumes "list_all (item_closure blobs) (pend dec)" and "queue_served (pend dec) dec"
  shows "list_all (item_closure blobs) (pend (DecodeDynamicBytes dec blob maxSize))
       \<and> queue_served (pend (DecodeDynamicBytes dec blob maxSize)) (DecodeDynamicBytes dec blob maxSize)"
proof (cases "err dec \<noteq> None")
  case True
  with assms show ?thesis by (simp add: DecodeDynamicBytes_def)
next
  case False
  obtain e dec' where d: "decodeOffset dec False = (e, dec')"
    by (cases "decodeOffset dec False")
  note f = decodeOffset_frame [OF d]
  show ?thesis
  proof (cases e)
    case None
    from decodeOffset_accepts [OF d [unfolded None]]
    have "length (offsets_list dec') = Suc (length (offsets_list dec))"
      by (simp add: offsets_list_def)
    with assms False f None d show ?thesis
      by (simp add: DecodeDynamicBytes_def Let_def queue_served_def offsets_list_def)
  next
    case (Some x)
    with assms False f d show ?thesis
      by (simp add: DecodeDynamicBytes_def Let_def queue_served_def)
  qed
qed

lemma fold_DecodeDynamicBytes_queue:
  assumes "list_all (item_closure blobs) (pend dec)" and "queue_served (pend dec) dec"
  shows "stacks (fold (\<lambda>i d. DecodeDynamicBytes d (f i) maxSize) is dec) = stacks dec
       \<and> list_all (item_closure blobs) (pend (fold (\<lambda>i d. DecodeDynamicBytes d (f i) maxSize) is dec))
       \<and> queue_served (pend (fold (\<lambda>i d. DecodeDynamicBytes d (f i) maxSize) is dec))
            (fold (\<lambda>i d. DecodeDynamicBytes d (f i) maxSize) is dec)"
  using assms
proof (induction "is" arbitrary: dec)
  case Nil
  then show ?case by simp
next
  case (Cons i "is")
  from DecodeDynamicBytes_queue [OF Cons.prems, of "f i" maxSize]
  have "list_all (item_closure blobs) (pend (DecodeDynamicBytes dec (f i) maxSize))"
    and "queue_served (pend (DecodeDynamicBytes dec (f i) maxSize)) (DecodeDynamicBytes dec (f i) maxSize)"
    by simp_all
  from Cons.IH [OF this] show ?case
    by (simp add: DecodeDynamicBytes_frame)
qed

lemma len_store_blob: "len (blobs_vars (store_blob mem p b) v) = len (blobs_vars mem v)"
  by (cases p) (simp_all add: store_blob_def)

lemma decodeDynamicBytes_served:
  assumes "err dec \<noteq> None \<or> offsets_list dec \<noteq> []"
  shows "\<exists>dec' mem'. decodeDynamicBytes dec mem p maxSize = Inr (dec', mem')
           \<and> stacks dec' = stacks dec \<and> pend dec' = pend dec
           \<and> (\<forall>v. len (blobs_vars mem' v) = len (blobs_vars mem v))
           \<and> (err dec' \<noteq> None
                \<or> err dec = None \<and> Suc (length (offsets_list dec')) = length (offsets_list dec))"
proof (cases "err dec \<noteq> None")
  case True
  then show ?thesis by (simp add: decodeDynamicBytes_def)
next
  case False
  with assms obtain os where os: "offsets dec = Some os" "os \<noteq> []"
    by (auto simp: offsets_list_def split: option.splits)
  let ?sz = "if 2 \<le> length os then os ! 1 - os ! 0 else length_d dec - os ! 0"
  let ?dec1 = "dec\<lparr>offsets := Some (tl os)\<rparr>"
  note r = retrieveSize_Some [OF os]
  show ?thesis
  proof (cases "maxSize < ?sz")
    case True
    with False r show ?thesis
      by (simp add: decodeDynamicBytes_def stacks_def)
  next
    case big: False
    let ?s = "expand 0 (load_blob mem p) ?sz"
    obtain dec2 bs where d: "DecodeStaticBytes ?dec1 (elems ?s) = (dec2, bs)"
      by (cases "DecodeStaticBytes ?dec1 (elems ?s)")
    then have f: "stacks dec2 = stacks dec" "pend dec2 = pend dec" "offsets dec2 = Some (tl os)"
      by (auto simp: DecodeStaticBytes_def stacks_def split: if_splits prod.splits)
    have "decodeDynamicBytes dec mem p maxSize = Inr (dec2, store_blob mem p (fill ?s bs))"
      using False big d unfolding decodeDynamicBytes_def r by (simp add: Let_def)
    with f os False show ?thesis
      by (simp add: len_store_blob offsets_list_def)
  qed
qed

lemma range_pend_items:
  assumes "list_all (item_closure blobs) ps" and "0 < len (blobs_vars mem blobs)"
      and "queue_served ps dec"
  shows "\<exists>dec' mem'. range_pend ps dec mem = Inr (dec', mem')
           \<and> stacks dec' = stacks dec \<and> pend dec' = pend dec
           \<and> (\<forall>v. len (blobs_vars mem' v) = len (blobs_vars mem v))"
  using assms
proof (induction ps arbitrary: dec mem)
  case Nil
  then show ?case by simp
next
  case (Cons p ps)
  from Cons.prems(3) have s: "err dec \<noteq> None \<or> offsets_list dec \<noteq> []"
    by (auto simp: queue_served_def)
  from Cons.prems(1) have ic: "item_closure blobs p" and rest: "list_all (item_closure blobs) ps"
    by simp_all
  have "\<exists>dec1 mem1. run_pend p dec mem = Inr (dec1, mem1)
           \<and> stacks dec1 = stacks dec \<and> pend dec1 = pend dec
           \<and> (\<forall>v. len (blobs_vars mem1 v) = len (blobs_vars mem v))
           \<and> (err dec1 \<noteq> None
                \<or> err dec = None \<and> Suc (length (offsets_list dec1)) = length (offsets_list dec))"
  proof (cases p)
    case (PendDynamicBytes blob maxSize)
    with decodeDynamicBytes_served [OF s, of mem blob maxSize] show ?thesis by simp
  next
    case (PendFirstBlob v maxSize)
    with ic have "v = blobs" by simp
    with PendFirstBlob Cons.prems(2) decodeDynamicBytes_served [OF s, of mem "BlobElem blobs 0" maxSize]
    show ?thesis by simp
  qed (use ic in simp_all)
  then obtain dec1 mem1 where r: "run_pend p dec mem = Inr (dec1, mem1)"
    and f: "stacks dec1 = stacks dec" "pend dec1 = pend dec"
    and l: "\<forall>v. len (blobs_vars mem1 v) = len (blobs_vars mem v)"
    and q: "err dec1 \<noteq> None
              \<or> err dec = None \<and> Suc (length (offsets_list dec1)) = length (offsets_list dec)"
    by blast
  from q Cons.prems(3) have q1: "queue_served ps dec1"
    by (auto simp: queue_served_def)
  from l Cons.prems(2) have "0 < len (blobs_vars mem1 blobs)" by simp
  from Cons.IH [OF rest this q1] obtain dec' mem' where
    "range_pend ps dec1 mem1 = Inr (dec', mem')" "stacks dec' = stacks dec1" "pend dec' = pend dec1"
    "\<forall>v. len (blobs_vars mem' v) = len (blobs_vars mem1 v)"
    by blast
  with r f l show ?case by simp
qed

lemma retrieveSize_frame:
  assumes "retrieveSize dec = Inr (sz, dec1)"
  shows "dec1 = dec\<lparr>offsets := Some (tl (offsets_list dec))\<rparr> \<and> offsets_list dec \<noteq> []"
  using assms by (auto simp: retrieveSize_def Let_def drop_Suc split: if_splits)

lemma stacks_descendIntoDynamic:
  "stacks (descendIntoDynamic dec sz)
     = (sz, lengths dec @ [length_d dec], offsetss dec @ [offsets dec], pends dec @ [pend dec])"
  by (simp add: stacks_def descendIntoDynamic_def OffsetDynamics_def)

lemma ascendFromDynamic_restores:
  assumes "range_pend (pend d) d m = Inr (d', m')"
      and "stacks d' = stacks (descendIntoDynamic dec1 sz)"
  shows "ascendFromDynamic d m =
           Inr (d'\<lparr>pend := pend dec1, pends := pends dec1, offsets := offsets dec1,
                    offsetss := offsetss dec1, length_d := length_d dec1,
                    lengths := lengths dec1\<rparr>, m')"
proof -
  from assms(2) have "length_d d' = sz" "lengths d' = lengths dec1 @ [length_d dec1]"
    "offsetss d' = offsetss dec1 @ [offsets dec1]" "pends d' = pends dec1 @ [pend dec1]"
    unfolding stacks_descendIntoDynamic by (simp_all add: stacks_def)
  with assms(1) show ?thesis
    by (simp add: ascendFromDynamic.simps dynamicDone.simps Let_def)
qed

lemma len_expand: "len (expand z s n) = unat n"
  by (simp add: expand_def make_slice_def reslice_def)

text \<open>The counter offset is refused.\<close>

lemma items_rejected:
  assumes "in_d dec = b0 # b1 # b2 # b3 # rest" and "offsets dec = None"
      and "length_d dec < Uint32 [b0, b1, b2, b3] \<or> Uint32 [b0, b1, b2, b3] mod 4 \<noteq> 0
           \<or> maxItems < Uint32 [b0, b1, b2, b3] div 4"
  shows "decodeSliceOfDynamicBytes_items dec mem blobs maxItems maxSize =
           (dec\<lparr>in_d := rest, buf := [b0, b1, b2, b3] @ drop 4 (buf dec),
                 offset := (if length_d dec < Uint32 [b0, b1, b2, b3] then offset dec
                            else Uint32 [b0, b1, b2, b3]),
                 offsets := (if length_d dec < Uint32 [b0, b1, b2, b3] then None
                             else Some [Uint32 [b0, b1, b2, b3]]),
                 err := Some (if length_d dec < Uint32 [b0, b1, b2, b3] then ErrOffsetBeyondCapacity
                              else if Uint32 [b0, b1, b2, b3] mod 4 \<noteq> 0 then ErrBadCounterOffset
                              else ErrMaxItemsExceeded)\<rparr>, mem)"
  using assms
  by (auto simp: decodeSliceOfDynamicBytes_items_def decodeOffset_read [OF assms(1)] Let_def
      offsets_list_def drop_bit_eq_div)

lemma items_accepted:
  assumes "in_d dec = b0 # b1 # b2 # b3 # rest" and "offsets dec = None" and "pend dec = []"
      and "err dec = None"
      and "Uint32 [b0, b1, b2, b3] \<le> length_d dec" and "Uint32 [b0, b1, b2, b3] mod 4 = 0"
      and "Uint32 [b0, b1, b2, b3] div 4 \<le> maxItems"
  shows "\<exists>d3. decodeSliceOfDynamicBytes_items dec mem blobs maxItems maxSize =
           (d3, mem\<lparr>blobs_vars := (blobs_vars mem)
                   (blobs := expand (Slice [] 0) (blobs_vars mem blobs) (Uint32 [b0, b1, b2, b3] div 4))\<rparr>)
         \<and> stacks d3 = stacks dec \<and> list_all (item_closure blobs) (pend d3)
         \<and> queue_served (pend d3) d3"
proof -
  let ?O = "Uint32 [b0, b1, b2, b3]"
  let ?d1 = "dec\<lparr>in_d := rest, buf := [b0, b1, b2, b3] @ drop 4 (buf dec), offset := ?O,
                  offsets := Some [?O]\<rparr>"
  let ?d2 = "?d1\<lparr>pend := [PendFirstBlob blobs maxSize]\<rparr>"
  let ?f = "\<lambda>i d. DecodeDynamicBytes d (BlobElem blobs i) maxSize"
  have o: "decodeOffset dec True = (None, ?d1)"
    using assms by (simp add: decodeOffset_read [OF assms(1)] Let_def offsets_list_def not_less [symmetric])
  have q: "list_all (item_closure blobs) (pend ?d2)" "queue_served (pend ?d2) ?d2"
    by (simp_all add: queue_served_def offsets_list_def)
  note fq = fold_DecodeDynamicBytes_queue [OF q, of "BlobElem blobs" maxSize "[1..<unat (?O div 4)]"]
  have "decodeSliceOfDynamicBytes_items dec mem blobs maxItems maxSize =
          (fold ?f [1..<unat (?O div 4)] ?d2,
           mem\<lparr>blobs_vars := (blobs_vars mem)
                   (blobs := expand (Slice [] 0) (blobs_vars mem blobs) (?O div 4))\<rparr>)"
    using assms by (simp add: decodeSliceOfDynamicBytes_items_def o Let_def drop_bit_eq_div
        not_less [symmetric])
  moreover have "stacks ?d2 = stacks dec" by (simp add: stacks_def)
  ultimately show ?thesis using fq by simp
qed

lemma descended_state:
  "in_d (descendIntoDynamic dec sz) = in_d dec \<and> offsets (descendIntoDynamic dec sz) = None
   \<and> pend (descendIntoDynamic dec sz) = [] \<and> err (descendIntoDynamic dec sz) = err dec
   \<and> length_d (descendIntoDynamic dec sz) = sz"
  by (simp add: descendIntoDynamic_def OffsetDynamics_def)

lemma counter_rejected:
  assumes "err dec = None" and "retrieveSize dec = Inr (sz, dec1)" and "4 \<le> sz"
      and "in_d dec = b0 # b1 # b2 # b3 # rest"
      and "sz < Uint32 [b0, b1, b2, b3] \<or> Uint32 [b0, b1, b2, b3] mod 4 \<noteq> 0
           \<or> maxItems < Uint32 [b0, b1, b2, b3] div 4"
  shows "\<exists>dec'. decodeSliceOfDynamicBytes dec mem blobs maxItems maxSize = Inr (dec', mem)
           \<and> err dec' = Some (if sz < Uint32 [b0, b1, b2, b3] then ErrOffsetBeyondCapacity
                               else if Uint32 [b0, b1, b2, b3] mod 4 \<noteq> 0 then ErrBadCounterOffset
                               else ErrMaxItemsExceeded)
           \<and> offsets dec' = offsets dec1 \<and> pend dec' = pend dec \<and> stacks dec' = stacks dec"
proof -
  let ?d0 = "descendIntoDynamic dec1 sz"
  note rf = retrieveSize_frame [OF assms(2)]
  note ds = descended_state [of dec1 sz]
  from rf assms(4) have i: "in_d ?d0 = b0 # b1 # b2 # b3 # rest"
    by (simp add: descendIntoDynamic_def OffsetDynamics_def)
  from ds have n: "offsets ?d0 = None" by simp
  from assms(5) ds have c: "length_d ?d0 < Uint32 [b0, b1, b2, b3] \<or> Uint32 [b0, b1, b2, b3] mod 4 \<noteq> 0
           \<or> maxItems < Uint32 [b0, b1, b2, b3] div 4" by simp
  note it = items_rejected [OF i n c, of mem blobs maxSize]
  obtain d3 where d3: "decodeSliceOfDynamicBytes_items ?d0 mem blobs maxItems maxSize = (d3, mem)"
    and p: "pend d3 = []" and s: "stacks d3 = stacks ?d0"
    and e: "err d3 = Some (if sz < Uint32 [b0, b1, b2, b3] then ErrOffsetBeyondCapacity
                           else if Uint32 [b0, b1, b2, b3] mod 4 \<noteq> 0 then ErrBadCounterOffset
                           else ErrMaxItemsExceeded)"
    using it ds by (simp add: stacks_def)
  have "range_pend (pend d3) d3 mem = Inr (d3, mem)" by (simp add: p)
  from ascendFromDynamic_restores [OF this s]
  have a: "ascendFromDynamic d3 mem = 
           Inr (d3\<lparr>pend := pend dec1, pends := pends dec1, offsets := offsets dec1,
                    offsetss := offsetss dec1, length_d := length_d dec1,
                    lengths := lengths dec1\<rparr>, mem)" .
  have z: "sz \<noteq> 0" "\<not> sz < 4" using assms(3) by (auto simp: not_less)
  have "decodeSliceOfDynamicBytes dec mem blobs maxItems maxSize = 
           Inr (d3\<lparr>pend := pend dec1, pends := pends dec1, offsets := offsets dec1,
                    offsetss := offsetss dec1, length_d := length_d dec1,
                    lengths := lengths dec1\<rparr>, mem)"
    using assms(1,2) z d3 a by (simp add: decodeSliceOfDynamicBytes.simps)
  with e rf show ?thesis by (simp add: stacks_def)
qed

lemma counter_accepted:
  assumes "err dec = None" and "retrieveSize dec = Inr (sz, dec1)" and "4 \<le> sz"
      and "in_d dec = b0 # b1 # b2 # b3 # rest"
      and "Uint32 [b0, b1, b2, b3] \<le> sz" and "Uint32 [b0, b1, b2, b3] mod 4 = 0"
      and "Uint32 [b0, b1, b2, b3] \<noteq> 0" and "Uint32 [b0, b1, b2, b3] div 4 \<le> maxItems"
  shows "\<exists>dec' mem'. decodeSliceOfDynamicBytes dec mem blobs maxItems maxSize = Inr (dec', mem')
           \<and> len (blobs_vars mem' blobs) = unat (Uint32 [b0, b1, b2, b3] div 4)
           \<and> offsets dec' = offsets dec1 \<and> pend dec' = pend dec \<and> stacks dec' = stacks dec"
proof -
  let ?O = "Uint32 [b0, b1, b2, b3]"
  let ?d0 = "descendIntoDynamic dec1 sz"
  let ?m3 = "mem\<lparr>blobs_vars := (blobs_vars mem)
                   (blobs := expand (Slice [] 0) (blobs_vars mem blobs) (?O div 4))\<rparr>"
  note rf = retrieveSize_frame [OF assms(2)]
  note ds = descended_state [of dec1 sz]
  from rf assms(4) have i: "in_d ?d0 = b0 # b1 # b2 # b3 # rest"
    by (simp add: descendIntoDynamic_def OffsetDynamics_def)
  from ds have n: "offsets ?d0 = None" and p0: "pend ?d0 = []" by simp_all
  from ds rf assms(1) have e0: "err ?d0 = None" by simp
  from ds assms(5) have c: "?O \<le> length_d ?d0" by simp
  from items_accepted [OF i n p0 e0 c assms(6) assms(8), of mem blobs maxSize]
  obtain d3 where d3: "decodeSliceOfDynamicBytes_items ?d0 mem blobs maxItems maxSize = (d3, ?m3)"
    and s: "stacks d3 = stacks ?d0" and ic: "list_all (item_closure blobs) (pend d3)"
    and qs: "queue_served (pend d3) d3"
    by blast
  have "?O div 4 \<noteq> 0"
  proof
    assume "?O div 4 = 0"
    with word_mod_div_equality [of ?O 4] assms(6) have "?O = 0" by simp
    with assms(7) show False by simp
  qed
  then have "0 < unat (?O div 4)" by (simp add: unat_gt_0)
  then have l: "0 < len (blobs_vars ?m3 blobs)" by (simp add: len_expand)
  from range_pend_items [OF ic l qs] obtain d4 m4 where
    r: "range_pend (pend d3) d3 ?m3 = Inr (d4, m4)" and s4: "stacks d4 = stacks d3"
    and l4: "\<forall>v. len (blobs_vars m4 v) = len (blobs_vars ?m3 v)"
    by blast
  from s s4 have "stacks d4 = stacks ?d0" by simp
  from ascendFromDynamic_restores [OF r this]
  have a: "ascendFromDynamic d3 ?m3 =
           Inr (d4\<lparr>pend := pend dec1, pends := pends dec1, offsets := offsets dec1,
                    offsetss := offsetss dec1, length_d := length_d dec1,
                    lengths := lengths dec1\<rparr>, m4)" .
  have z: "sz \<noteq> 0" "\<not> sz < 4" using assms(3) by (auto simp: not_less)
  have "decodeSliceOfDynamicBytes dec mem blobs maxItems maxSize =
           Inr (d4\<lparr>pend := pend dec1, pends := pends dec1, offsets := offsets dec1,
                    offsetss := offsetss dec1, length_d := length_d dec1,
                    lengths := lengths dec1\<rparr>, m4)"
    using assms(1,2) z d3 a by (simp add: decodeSliceOfDynamicBytes.simps)
  with l4 rf show ?thesis by (simp add: stacks_def len_expand)
qed

text \<open>
  With an error latched, the closures of a queue do nothing either, as long as the
  closure of line 264 finds a first item to take the address of.
\<close>

lemma range_pend_latched:
  assumes "err dec \<noteq> None"
      and "\<forall>p \<in> set ps. \<forall>v maxSize. p = PendFirstBlob v maxSize \<longrightarrow> 0 < len (blobs_vars mem v)"
  shows "range_pend ps dec mem = Inr (dec, mem)"
  using assms
proof (induction ps)
  case Nil
  then show ?case by simp
next
  case (Cons p ps)
  have "run_pend p dec mem = Inr (dec, mem)"
  proof (cases p)
    case (PendFirstBlob v maxSize)
    with Cons.prems show ?thesis by (simp add: decodeDynamicBytes_def)
  qed (use Cons.prems(1) in \<open>simp_all add: decodeDynamicBytes_def decodeSliceOfStaticBytes_def
        decodeSliceOfStaticObjects_def decodeSliceOfDynamicBytes.simps\<close>)
  with Cons show ?case by simp
qed

text \<open>Unfolding a run of the decoder on a concrete state.\<close>

lemmas run_defs = decodeSliceOfDynamicBytes.simps retrieveSize_def offsets_list_def Decoder0_def
  descendIntoDynamic_def OffsetDynamics_def decodeSliceOfDynamicBytes_items_def decodeOffset_def
  ReadFull_def Uint32_def Let_def ascendFromDynamic.simps dynamicDone.simps memory0_def
  expand_def cap_def make_slice_def reslice_def

text \<open>
  A counter offset of zero passes every check of lines 242-254 and leaves a slice of no
  items, and the closure of line 264 then indexes its first item: the decoder panics.
\<close>

lemma zero_counter_offset_panics:
  "decodeSliceOfDynamicBytes
     (Decoder0\<lparr>in_d := [0, 0, 0, 0], length_d := 8, offset := 4, offsets := Some [4]\<rparr>)
     memory0 0 10 10 = Inl IndexOutOfRange"
  by (simp add: run_defs)

text \<open>
  The same on the 8-byte message \<^verbatim>\<open>04 00 00 00 00 00 00 00\<close>, for a container whose only
  field is a slice of byte strings.
\<close>

lemma zero_counter_offset_message_panics:
  "dynamicDone
     (DecodeSliceOfDynamicBytes
        (OffsetDynamics (Decoder0\<lparr>in_d := [4, 0, 0, 0, 0, 0, 0, 0], length_d := 8\<rparr>) 4) 0 10 10)
     memory0 = Inl IndexOutOfRange"
  by (simp add: run_defs DecodeSliceOfDynamicBytes_def)

subsection \<open>The claims about tail regions\<close>

text \<open>
  C5, as stated, fails: the counter offset goes through the capacity check of line 335
  before line 246 looks at its divisibility. Here the region has 4 bytes and the counter
  offset read is 5: the error is \<open>ErrOffsetBeyondCapacity\<close>. The last conjunct is the
  whole run on the 8-byte message \<^verbatim>\<open>04 00 00 00 05 00 00 00\<close> of a container whose only
  field is a slice of byte strings.
\<close>

theorem counter_offset_counterexample:
  "Uint32 [5, 0, 0, 0] mod 4 \<noteq> 0
   \<and> decodeSliceOfDynamicBytes
       (Decoder0\<lparr>in_d := [5, 0, 0, 0], length_d := 8, offset := 4, offsets := Some [4]\<rparr>)
       memory0 0 10 10
     = Inr (Decoder0\<lparr>in_d := [], err := Some ErrOffsetBeyondCapacity, dyn := True,
                      buf := [5, 0, 0, 0] @ replicate 28 0, length_d := 8, offset := 0,
                      offsets := Some []\<rparr>, memory0)
   \<and> dynamicDone
       (DecodeSliceOfDynamicBytes
          (OffsetDynamics (Decoder0\<lparr>in_d := [4, 0, 0, 0, 5, 0, 0, 0], length_d := 8\<rparr>) 4)
          0 10 10)
       memory0
     = Inr (Decoder0\<lparr>in_d := [], err := Some ErrOffsetBeyondCapacity, dyn := True,
                      buf := [5, 0, 0, 0] @ replicate 28 0, length_d := 8\<rparr>, memory0)"
  by (simp add: run_defs DecodeSliceOfDynamicBytes_def)

text \<open>
  C5, amended: in a region of at least 4 bytes whose first four bytes are the counter
  offset \<open>O\<close>, decoding fails with \<open>ErrOffsetBeyondCapacity\<close> when \<open>O\<close> exceeds the
  region's length; otherwise with \<open>ErrBadCounterOffset\<close> when \<open>O\<close> is not divisible by
  4; otherwise with \<open>ErrMaxItemsExceeded\<close> when \<open>O / 4\<close> exceeds \<open>maxItems\<close>; otherwise,
  when \<open>O\<close> is not zero, the decoder returns with the slice holding exactly \<open>O / 4\<close>
  items and the enclosing container's queues restored.
\<close>

theorem counter_offset_decides_items:
  assumes "err dec = None" and "retrieveSize dec = Inr (sz, dec1)" and "4 \<le> sz"
      and "in_d dec = b0 # b1 # b2 # b3 # rest"
  shows "(sz < Uint32 [b0, b1, b2, b3] \<longrightarrow>
            (\<exists>dec'. decodeSliceOfDynamicBytes dec mem blobs maxItems maxSize = Inr (dec', mem)
                    \<and> err dec' = Some ErrOffsetBeyondCapacity))
       \<and> (Uint32 [b0, b1, b2, b3] \<le> sz \<and> Uint32 [b0, b1, b2, b3] mod 4 \<noteq> 0 \<longrightarrow>
            (\<exists>dec'. decodeSliceOfDynamicBytes dec mem blobs maxItems maxSize = Inr (dec', mem)
                    \<and> err dec' = Some ErrBadCounterOffset))
       \<and> (Uint32 [b0, b1, b2, b3] \<le> sz \<and> Uint32 [b0, b1, b2, b3] mod 4 = 0
            \<and> maxItems < Uint32 [b0, b1, b2, b3] div 4 \<longrightarrow>
            (\<exists>dec'. decodeSliceOfDynamicBytes dec mem blobs maxItems maxSize = Inr (dec', mem)
                    \<and> err dec' = Some ErrMaxItemsExceeded))
       \<and> (Uint32 [b0, b1, b2, b3] \<le> sz \<and> Uint32 [b0, b1, b2, b3] mod 4 = 0
            \<and> Uint32 [b0, b1, b2, b3] \<noteq> 0 \<and> Uint32 [b0, b1, b2, b3] div 4 \<le> maxItems \<longrightarrow>
            (\<exists>dec' mem'. decodeSliceOfDynamicBytes dec mem blobs maxItems maxSize = Inr (dec', mem')
                    \<and> len (blobs_vars mem' blobs) = unat (Uint32 [b0, b1, b2, b3] div 4)
                    \<and> offsets dec' = offsets dec1 \<and> pend dec' = pend dec
                    \<and> pends dec' = pends dec \<and> length_d dec' = length_d dec))"
proof (intro conjI impI)
  assume "sz < Uint32 [b0, b1, b2, b3]"
  with counter_rejected [OF assms, of maxItems mem blobs maxSize]
  show "\<exists>dec'. decodeSliceOfDynamicBytes dec mem blobs maxItems maxSize = Inr (dec', mem)
                    \<and> err dec' = Some ErrOffsetBeyondCapacity"
    by auto
next
  assume "Uint32 [b0, b1, b2, b3] \<le> sz \<and> Uint32 [b0, b1, b2, b3] mod 4 \<noteq> 0"
  with counter_rejected [OF assms, of maxItems mem blobs maxSize]
  show "\<exists>dec'. decodeSliceOfDynamicBytes dec mem blobs maxItems maxSize = Inr (dec', mem)
                    \<and> err dec' = Some ErrBadCounterOffset"
    by (auto simp: not_less [symmetric])
next
  assume "Uint32 [b0, b1, b2, b3] \<le> sz \<and> Uint32 [b0, b1, b2, b3] mod 4 = 0
            \<and> maxItems < Uint32 [b0, b1, b2, b3] div 4"
  with counter_rejected [OF assms, of maxItems mem blobs maxSize]
  show "\<exists>dec'. decodeSliceOfDynamicBytes dec mem blobs maxItems maxSize = Inr (dec', mem)
                    \<and> err dec' = Some ErrMaxItemsExceeded"
    by (auto simp: not_less [symmetric])
next
  assume a: "Uint32 [b0, b1, b2, b3] \<le> sz \<and> Uint32 [b0, b1, b2, b3] mod 4 = 0
            \<and> Uint32 [b0, b1, b2, b3] \<noteq> 0 \<and> Uint32 [b0, b1, b2, b3] div 4 \<le> maxItems"
  then have "Uint32 [b0, b1, b2, b3] \<le> sz" "Uint32 [b0, b1, b2, b3] mod 4 = 0"
    "Uint32 [b0, b1, b2, b3] \<noteq> 0" "Uint32 [b0, b1, b2, b3] div 4 \<le> maxItems"
    by simp_all
  from counter_accepted [OF assms this, of mem blobs maxSize]
  show "\<exists>dec' mem'. decodeSliceOfDynamicBytes dec mem blobs maxItems maxSize = Inr (dec', mem')
                    \<and> len (blobs_vars mem' blobs) = unat (Uint32 [b0, b1, b2, b3] div 4)
                    \<and> offsets dec' = offsets dec1 \<and> pend dec' = pend dec
                    \<and> pends dec' = pends dec \<and> length_d dec' = length_d dec"
    by (auto simp: stacks_def)
qed

theorem counter_offset_decides_items_witness:
  "(\<exists>dec' mem'.
      decodeSliceOfDynamicBytes
        (Decoder0\<lparr>in_d := [8, 0, 0, 0, 9, 0, 0, 0, 7, 6, 5], length_d := 15, offset := 4,
                  offsets := Some [4]\<rparr>) memory0 0 10 10 = Inr (dec', mem')
      \<and> len (blobs_vars mem' 0) = 2 \<and> offsets dec' = Some [] \<and> length_d dec' = 15)
   \<and> (\<exists>dec'.
      decodeSliceOfDynamicBytes
        (Decoder0\<lparr>in_d := [5, 0, 0, 0, 9, 0, 0, 0], length_d := 12, offset := 4,
                  offsets := Some [4]\<rparr>) memory0 0 10 10 = Inr (dec', memory0)
      \<and> err dec' = Some ErrBadCounterOffset)
   \<and> (\<exists>dec'.
      decodeSliceOfDynamicBytes
        (Decoder0\<lparr>in_d := [9, 0, 0, 0, 9, 0, 0, 0], length_d := 12, offset := 4,
                  offsets := Some [4]\<rparr>) memory0 0 10 10 = Inr (dec', memory0)
      \<and> err dec' = Some ErrOffsetBeyondCapacity)
   \<and> (\<exists>dec'.
      decodeSliceOfDynamicBytes
        (Decoder0\<lparr>in_d := [8, 0, 0, 0, 8, 0, 0, 0], length_d := 12, offset := 4,
                  offsets := Some [4]\<rparr>) memory0 0 1 10 = Inr (dec', memory0)
      \<and> err dec' = Some ErrMaxItemsExceeded)"
  using counter_offset_decides_items
          [where dec = "Decoder0\<lparr>in_d := [8, 0, 0, 0, 9, 0, 0, 0, 7, 6, 5], length_d := 15,
                                 offset := 4, offsets := Some [4]\<rparr>"
             and sz = 11
             and ?dec1.0 = "Decoder0\<lparr>in_d := [8, 0, 0, 0, 9, 0, 0, 0, 7, 6, 5], length_d := 15,
                                    offset := 4, offsets := Some []\<rparr>"
             and ?b0.0 = 8 and ?b1.0 = 0 and ?b2.0 = 0 and ?b3.0 = 0 and rest = "[9, 0, 0, 0, 7, 6, 5]"
             and mem = memory0 and blobs = 0 and maxItems = 10 and maxSize = 10]
        counter_offset_decides_items
          [where dec = "Decoder0\<lparr>in_d := [5, 0, 0, 0, 9, 0, 0, 0], length_d := 12,
                                 offset := 4, offsets := Some [4]\<rparr>"
             and sz = 8
             and ?dec1.0 = "Decoder0\<lparr>in_d := [5, 0, 0, 0, 9, 0, 0, 0], length_d := 12,
                                    offset := 4, offsets := Some []\<rparr>"
             and ?b0.0 = 5 and ?b1.0 = 0 and ?b2.0 = 0 and ?b3.0 = 0 and rest = "[9, 0, 0, 0]"
             and mem = memory0 and blobs = 0 and maxItems = 10 and maxSize = 10]
        counter_offset_decides_items
          [where dec = "Decoder0\<lparr>in_d := [9, 0, 0, 0, 9, 0, 0, 0], length_d := 12,
                                 offset := 4, offsets := Some [4]\<rparr>"
             and sz = 8
             and ?dec1.0 = "Decoder0\<lparr>in_d := [9, 0, 0, 0, 9, 0, 0, 0], length_d := 12,
                                    offset := 4, offsets := Some []\<rparr>"
             and ?b0.0 = 9 and ?b1.0 = 0 and ?b2.0 = 0 and ?b3.0 = 0 and rest = "[9, 0, 0, 0]"
             and mem = memory0 and blobs = 0 and maxItems = 10 and maxSize = 10]
        counter_offset_decides_items
          [where dec = "Decoder0\<lparr>in_d := [8, 0, 0, 0, 8, 0, 0, 0], length_d := 12,
                                 offset := 4, offsets := Some [4]\<rparr>"
             and sz = 8
             and ?dec1.0 = "Decoder0\<lparr>in_d := [8, 0, 0, 0, 8, 0, 0, 0], length_d := 12,
                                    offset := 4, offsets := Some []\<rparr>"
             and ?b0.0 = 8 and ?b1.0 = 0 and ?b2.0 = 0 and ?b3.0 = 0 and rest = "[8, 0, 0, 0]"
             and mem = memory0 and blobs = 0 and maxItems = 1 and maxSize = 10]
  by (auto simp add: retrieveSize_def offsets_list_def Decoder0_def Uint32_def Let_def)

text \<open>
  C6, as stated, fails: a region of length zero is shorter than 4 bytes, and line 227
  returns for it without an error (and without writing the target slice). The last
  conjunct is the whole run on the 4-byte message \<^verbatim>\<open>04 00 00 00\<close>, the encoding of a
  container whose only field is an empty slice of byte strings.
\<close>

theorem short_counter_counterexample:
  "retrieveSize (Decoder0\<lparr>in_d := [1, 2, 3], length_d := 8, offset := 8, offsets := Some [8]\<rparr>)
     = Inr (0, Decoder0\<lparr>in_d := [1, 2, 3], length_d := 8, offset := 8, offsets := Some []\<rparr>)
   \<and> decodeSliceOfDynamicBytes
       (Decoder0\<lparr>in_d := [1, 2, 3], length_d := 8, offset := 8, offsets := Some [8]\<rparr>)
       memory0 0 10 10
     = Inr (Decoder0\<lparr>in_d := [1, 2, 3], length_d := 8, offset := 8, offsets := Some []\<rparr>, memory0)
   \<and> err (Decoder0\<lparr>in_d := [1, 2, 3], length_d := 8, offset := 8, offsets := Some []\<rparr>)
       \<noteq> Some ErrShortCounterOffset
   \<and> dynamicDone
       (DecodeSliceOfDynamicBytes
          (OffsetDynamics (Decoder0\<lparr>in_d := [4, 0, 0, 0], length_d := 4\<rparr>) 4) 0 10 10)
       memory0
     = Inr (Decoder0\<lparr>in_d := [], dyn := True, buf := [4, 0, 0, 0] @ replicate 28 0,
                      length_d := 4, offset := 4\<rparr>, memory0)"
  by (simp add: run_defs DecodeSliceOfDynamicBytes_def)

text \<open>
  C6, amended: when the tail region of a slice of variable-length items has 1, 2 or 3
  bytes, decoding fails with \<open>ErrShortCounterOffset\<close>; for a region of no bytes the
  tail action returns without latching an error and without writing the memory, so the
  caller's slice stays as it was (a reused slice keeps its items).
\<close>

theorem short_counter_region:
  assumes "err dec = None" and "retrieveSize dec = Inr (sz, dec1)"
  shows "(sz \<noteq> 0 \<and> sz < 4 \<longrightarrow>
            decodeSliceOfDynamicBytes dec mem blobs maxItems maxSize
              = Inr (dec1\<lparr>err := Some ErrShortCounterOffset\<rparr>, mem))
       \<and> (sz = 0 \<longrightarrow>
            decodeSliceOfDynamicBytes dec mem blobs maxItems maxSize = Inr (dec1, mem)
            \<and> err dec1 = None)"
proof -
  from assms(2) have "err dec1 = err dec"
    by (auto simp: retrieveSize_def Let_def split: if_splits)
  with assms show ?thesis
    by (simp add: decodeSliceOfDynamicBytes.simps)
qed

theorem short_counter_region_witness:
  "decodeSliceOfDynamicBytes
     (Decoder0\<lparr>in_d := [1, 2, 3], length_d := 7, offset := 4, offsets := Some [4]\<rparr>)
     memory0 0 10 10
   = Inr (Decoder0\<lparr>in_d := [1, 2, 3], length_d := 7, offset := 4, offsets := Some [],
                    err := Some ErrShortCounterOffset\<rparr>, memory0)
   \<and> decodeSliceOfDynamicBytes
     (Decoder0\<lparr>in_d := [1, 2, 3], length_d := 8, offset := 8, offsets := Some [8]\<rparr>)
     (memory0\<lparr>blobs_vars := (blobs_vars memory0)(0 := Slice [Slice [7] 1, Slice [6, 5] 2] 2)\<rparr>)
     0 10 10
   = Inr (Decoder0\<lparr>in_d := [1, 2, 3], length_d := 8, offset := 8, offsets := Some []\<rparr>,
          memory0\<lparr>blobs_vars := (blobs_vars memory0)(0 := Slice [Slice [7] 1, Slice [6, 5] 2] 2)\<rparr>)
   \<and> err (Decoder0\<lparr>in_d := [1, 2, 3], length_d := 8, offset := 8, offsets := Some []\<rparr>) = None"
  using short_counter_region
          [where dec = "Decoder0\<lparr>in_d := [1, 2, 3], length_d := 7, offset := 4,
                                 offsets := Some [4]\<rparr>"
             and sz = 3
             and ?dec1.0 = "Decoder0\<lparr>in_d := [1, 2, 3], length_d := 7, offset := 4,
                                    offsets := Some []\<rparr>"
             and mem = memory0 and blobs = 0 and maxItems = 10 and maxSize = 10]
        short_counter_region
          [where dec = "Decoder0\<lparr>in_d := [1, 2, 3], length_d := 8, offset := 8,
                                 offsets := Some [8]\<rparr>"
             and sz = 0
             and ?dec1.0 = "Decoder0\<lparr>in_d := [1, 2, 3], length_d := 8, offset := 8,
                                    offsets := Some []\<rparr>"
             and mem = "memory0\<lparr>blobs_vars := (blobs_vars memory0)
                                 (0 := Slice [Slice [7] 1, Slice [6, 5] 2] 2)\<rparr>"
             and blobs = 0 and maxItems = 10 and maxSize = 10]
  by (simp add: retrieveSize_def offsets_list_def Decoder0_def Let_def)

text \<open>
  C7: the caps are enforced. A byte string whose region is longer than \<open>maxSize\<close> fails
  with \<open>ErrMaxLengthExceeded\<close>; a slice of fixed-size items or of static records whose
  item count (the region's length divided by the item size) exceeds \<open>maxItems\<close>, and a
  slice of variable-length items whose counter gives more than \<open>maxItems\<close> items, fail
  with \<open>ErrMaxItemsExceeded\<close>. The memory is not written.
\<close>

theorem caps_enforced:
  assumes "err dec = None" and "retrieveSize dec = Inr (sz, dec1)"
  shows "(maxSize < sz \<longrightarrow>
            decodeDynamicBytes dec mem blob maxSize
              = Inr (dec1\<lparr>err := Some ErrMaxLengthExceeded\<rparr>, mem))
       \<and> ((of_nat N :: u32) \<noteq> 0 \<and> sz mod of_nat N = 0 \<and> maxItems < sz div of_nat N \<longrightarrow>
            decodeSliceOfStaticBytes N dec mem bytes maxItems
              = Inr (dec1\<lparr>err := Some ErrMaxItemsExceeded\<rparr>, mem))
       \<and> (SizeSSZ T \<noteq> 0 \<and> sz mod SizeSSZ T = 0 \<and> maxItems < sz div SizeSSZ T \<longrightarrow>
            decodeSliceOfStaticObjects T dec mem objects maxItems
              = Inr (dec1\<lparr>err := Some ErrMaxItemsExceeded\<rparr>, mem))
       \<and> (4 \<le> sz \<and> in_d dec = b0 # b1 # b2 # b3 # rest \<and> Uint32 [b0, b1, b2, b3] \<le> sz
            \<and> Uint32 [b0, b1, b2, b3] mod 4 = 0 \<and> maxItems < Uint32 [b0, b1, b2, b3] div 4 \<longrightarrow>
            (\<exists>dec'. decodeSliceOfDynamicBytes dec mem blobs maxItems maxSize = Inr (dec', mem)
                    \<and> err dec' = Some ErrMaxItemsExceeded))"
proof (intro conjI impI)
  assume "maxSize < sz"
  with assms show "decodeDynamicBytes dec mem blob maxSize
              = Inr (dec1\<lparr>err := Some ErrMaxLengthExceeded\<rparr>, mem)"
    by (simp add: decodeDynamicBytes_def)
next
  assume a: "(of_nat N :: u32) \<noteq> 0 \<and> sz mod of_nat N = 0 \<and> maxItems < sz div of_nat N"
  then have "sz \<noteq> 0" by auto
  with a assms show "decodeSliceOfStaticBytes N dec mem bytes maxItems
              = Inr (dec1\<lparr>err := Some ErrMaxItemsExceeded\<rparr>, mem)"
    by (simp add: decodeSliceOfStaticBytes_def Let_def)
next
  assume a: "SizeSSZ T \<noteq> 0 \<and> sz mod SizeSSZ T = 0 \<and> maxItems < sz div SizeSSZ T"
  then have "sz \<noteq> 0" by auto
  with a assms show "decodeSliceOfStaticObjects T dec mem objects maxItems
              = Inr (dec1\<lparr>err := Some ErrMaxItemsExceeded\<rparr>, mem)"
    by (simp add: decodeSliceOfStaticObjects_def Let_def)
next
  assume a: "4 \<le> sz \<and> in_d dec = b0 # b1 # b2 # b3 # rest \<and> Uint32 [b0, b1, b2, b3] \<le> sz
            \<and> Uint32 [b0, b1, b2, b3] mod 4 = 0 \<and> maxItems < Uint32 [b0, b1, b2, b3] div 4"
  then have "4 \<le> sz" "in_d dec = b0 # b1 # b2 # b3 # rest"
    "sz < Uint32 [b0, b1, b2, b3] \<or> Uint32 [b0, b1, b2, b3] mod 4 \<noteq> 0
           \<or> maxItems < Uint32 [b0, b1, b2, b3] div 4"
    by simp_all
  from counter_rejected [OF assms this, of mem blobs maxSize] a
  show "\<exists>dec'. decodeSliceOfDynamicBytes dec mem blobs maxItems maxSize = Inr (dec', mem)
                    \<and> err dec' = Some ErrMaxItemsExceeded"
    by (auto simp: not_less [symmetric])
qed

theorem caps_enforced_witness:
  "decodeDynamicBytes
     (Decoder0\<lparr>in_d := [1, 2, 3, 4, 5, 6, 7, 8], length_d := 12, offset := 4,
               offsets := Some [4]\<rparr>) memory0 (BlobVar 0) 7
     = Inr (Decoder0\<lparr>in_d := [1, 2, 3, 4, 5, 6, 7, 8], length_d := 12, offset := 4,
                      offsets := Some [], err := Some ErrMaxLengthExceeded\<rparr>, memory0)
   \<and> decodeSliceOfStaticBytes 2
     (Decoder0\<lparr>in_d := [1, 2, 3, 4, 5, 6, 7, 8], length_d := 12, offset := 4,
               offsets := Some [4]\<rparr>) memory0 0 3
     = Inr (Decoder0\<lparr>in_d := [1, 2, 3, 4, 5, 6, 7, 8], length_d := 12, offset := 4,
                      offsets := Some [], err := Some ErrMaxItemsExceeded\<rparr>, memory0)
   \<and> decodeSliceOfStaticObjects \<lparr>StaticSSZ = True, SizeSSZ = 8, new = [VUint64 0]\<rparr>
     (Decoder0\<lparr>in_d := [1, 2, 3, 4, 5, 6, 7, 8], length_d := 12, offset := 4,
               offsets := Some [4]\<rparr>) memory0 0 0
     = Inr (Decoder0\<lparr>in_d := [1, 2, 3, 4, 5, 6, 7, 8], length_d := 12, offset := 4,
                      offsets := Some [], err := Some ErrMaxItemsExceeded\<rparr>, memory0)
   \<and> (\<exists>dec'. decodeSliceOfDynamicBytes
     (Decoder0\<lparr>in_d := [8, 0, 0, 0, 8, 0, 0, 0], length_d := 12, offset := 4,
               offsets := Some [4]\<rparr>) memory0 0 1 10 = Inr (dec', memory0)
       \<and> err dec' = Some ErrMaxItemsExceeded)"
  using caps_enforced
          [where dec = "Decoder0\<lparr>in_d := [1, 2, 3, 4, 5, 6, 7, 8], length_d := 12, offset := 4,
                                 offsets := Some [4]\<rparr>"
             and sz = 8
             and ?dec1.0 = "Decoder0\<lparr>in_d := [1, 2, 3, 4, 5, 6, 7, 8], length_d := 12,
                                    offset := 4, offsets := Some []\<rparr>"
             and mem = memory0 and blob = "BlobVar 0" and maxSize = 7 and N = 2 and bytes = 0
             and maxItems = 3]
        caps_enforced
          [where dec = "Decoder0\<lparr>in_d := [1, 2, 3, 4, 5, 6, 7, 8], length_d := 12, offset := 4,
                                 offsets := Some [4]\<rparr>"
             and sz = 8
             and ?dec1.0 = "Decoder0\<lparr>in_d := [1, 2, 3, 4, 5, 6, 7, 8], length_d := 12,
                                    offset := 4, offsets := Some []\<rparr>"
             and mem = memory0 and T = "\<lparr>StaticSSZ = True, SizeSSZ = 8, new = [VUint64 0]\<rparr>"
             and objects = 0 and maxItems = 0]
        caps_enforced
          [where dec = "Decoder0\<lparr>in_d := [8, 0, 0, 0, 8, 0, 0, 0], length_d := 12, offset := 4,
                                 offsets := Some [4]\<rparr>"
             and sz = 8
             and ?dec1.0 = "Decoder0\<lparr>in_d := [8, 0, 0, 0, 8, 0, 0, 0], length_d := 12,
                                    offset := 4, offsets := Some []\<rparr>"
             and mem = memory0 and blobs = 0 and maxItems = 1 and maxSize = 10
             and ?b0.0 = 8 and ?b1.0 = 0 and ?b2.0 = 0 and ?b3.0 = 0 and rest = "[8, 0, 0, 0]"]
  by (auto simp add: retrieveSize_def offsets_list_def Decoder0_def Uint32_def Let_def)

text \<open>
  C8: once an error is latched, every decode operation of the file returns the decoder
  and its target as they were: nothing is read, the target and the queues and stacks are
  unchanged, and the error stays.
\<close>

theorem latched_error_noop:
  assumes "err dec \<noteq> None"
  shows "DecodeUint64 dec n = (dec, n)
       \<and> DecodeUint256 dec m = (dec, m)
       \<and> DecodeStaticBytes dec bytes = (dec, bytes)
       \<and> DecodeArrayOfStaticBytes dec items = (dec, items)
       \<and> DecodeDynamicBytes dec blob maxSize = dec
       \<and> decodeDynamicBytes dec mem blob maxSize = Inr (dec, mem)
       \<and> DecodeSliceOfStaticBytes N dec v maxItems = dec
       \<and> decodeSliceOfStaticBytes N dec mem v maxItems = Inr (dec, mem)
       \<and> DecodeSliceOfDynamicBytes dec v maxItems maxSize = dec
       \<and> decodeSliceOfDynamicBytes dec mem v maxItems maxSize = Inr (dec, mem)
       \<and> DecodeSliceOfStaticObjects T dec v maxItems = dec
       \<and> decodeSliceOfStaticObjects T dec mem v maxItems = Inr (dec, mem)"
  using assms
  by (simp add: DecodeUint64_def DecodeUint256_def DecodeStaticBytes_def
      DecodeArrayOfStaticBytes_def DecodeDynamicBytes_def decodeDynamicBytes_def
      DecodeSliceOfStaticBytes_def decodeSliceOfStaticBytes_def DecodeSliceOfDynamicBytes_def
      decodeSliceOfDynamicBytes.simps DecodeSliceOfStaticObjects_def
      decodeSliceOfStaticObjects_def)

theorem latched_error_noop_witness:
  "DecodeUint64 (Decoder0\<lparr>in_d := [1, 2, 3, 4, 5, 6, 7, 8], err := Some EOF,
                          offsets := Some [4]\<rparr>) 7
     = (Decoder0\<lparr>in_d := [1, 2, 3, 4, 5, 6, 7, 8], err := Some EOF, offsets := Some [4]\<rparr>, 7)
   \<and> DecodeDynamicBytes (Decoder0\<lparr>in_d := [1, 2, 3, 4, 5, 6, 7, 8], err := Some EOF,
                                  offsets := Some [4]\<rparr>) (BlobVar 0) 10
     = Decoder0\<lparr>in_d := [1, 2, 3, 4, 5, 6, 7, 8], err := Some EOF, offsets := Some [4]\<rparr>
   \<and> decodeDynamicBytes (Decoder0\<lparr>in_d := [1, 2, 3, 4, 5, 6, 7, 8], err := Some EOF,
                                  offsets := Some [4]\<rparr>) memory0 (BlobVar 0) 10
     = Inr (Decoder0\<lparr>in_d := [1, 2, 3, 4, 5, 6, 7, 8], err := Some EOF,
                      offsets := Some [4]\<rparr>, memory0)
   \<and> decodeSliceOfDynamicBytes (Decoder0\<lparr>in_d := [1, 2, 3, 4, 5, 6, 7, 8], err := Some EOF,
                                  offsets := Some [4]\<rparr>) memory0 0 10 10
     = Inr (Decoder0\<lparr>in_d := [1, 2, 3, 4, 5, 6, 7, 8], err := Some EOF,
                      offsets := Some [4]\<rparr>, memory0)"
  using latched_error_noop
          [where dec = "Decoder0\<lparr>in_d := [1, 2, 3, 4, 5, 6, 7, 8], err := Some EOF,
                                 offsets := Some [4]\<rparr>"
             and n = 7 and blob = "BlobVar 0" and maxSize = 10 and mem = memory0 and v = 0
             and maxItems = 10]
  by simp

text \<open>
  C9: when the region computed for a slice of fixed-size byte strings, of static records
  or of variable-length byte strings has length zero, the tail action returns without
  an error and without writing the memory: the caller's slice keeps its length and its
  contents.
\<close>

theorem empty_region_keeps_slice:
  assumes "err dec = None" and "retrieveSize dec = Inr (0, dec1)"
  shows "decodeSliceOfStaticBytes N dec mem bytes maxItems = Inr (dec1, mem)
       \<and> decodeSliceOfStaticObjects T dec mem objects maxItems = Inr (dec1, mem)
       \<and> decodeSliceOfDynamicBytes dec mem blobs maxItems maxSize = Inr (dec1, mem)
       \<and> err dec1 = None"
proof -
  from assms(2) have "err dec1 = err dec"
    by (auto simp: retrieveSize_def Let_def split: if_splits)
  with assms show ?thesis
    by (simp add: decodeSliceOfStaticBytes_def decodeSliceOfStaticObjects_def
        decodeSliceOfDynamicBytes.simps)
qed

theorem empty_region_keeps_slice_witness:
  "decodeSliceOfDynamicBytes
     (Decoder0\<lparr>in_d := [1, 2, 3], length_d := 8, offset := 8, offsets := Some [8]\<rparr>)
     (memory0\<lparr>blobs_vars := (blobs_vars memory0)(0 := Slice [Slice [7] 1, Slice [6, 5] 2] 2)\<rparr>)
     0 10 10
   = Inr (Decoder0\<lparr>in_d := [1, 2, 3], length_d := 8, offset := 8, offsets := Some []\<rparr>,
          memory0\<lparr>blobs_vars := (blobs_vars memory0)(0 := Slice [Slice [7] 1, Slice [6, 5] 2] 2)\<rparr>)
   \<and> decodeSliceOfStaticBytes 2
     (Decoder0\<lparr>in_d := [1, 2, 3], length_d := 8, offset := 8, offsets := Some [8]\<rparr>)
     (memory0\<lparr>bytes_vars := (bytes_vars memory0)(0 := Slice [[7, 6]] 1)\<rparr>) 0 10
   = Inr (Decoder0\<lparr>in_d := [1, 2, 3], length_d := 8, offset := 8, offsets := Some []\<rparr>,
          memory0\<lparr>bytes_vars := (bytes_vars memory0)(0 := Slice [[7, 6]] 1)\<rparr>)
   \<and> decodeSliceOfStaticObjects \<lparr>StaticSSZ = True, SizeSSZ = 8, new = [VUint64 0]\<rparr>
     (Decoder0\<lparr>in_d := [1, 2, 3], length_d := 8, offset := 8, offsets := Some [8]\<rparr>)
     (memory0\<lparr>objects_vars := (objects_vars memory0)(0 := Slice [Some [VUint64 9]] 1)\<rparr>) 0 10
   = Inr (Decoder0\<lparr>in_d := [1, 2, 3], length_d := 8, offset := 8, offsets := Some []\<rparr>,
          memory0\<lparr>objects_vars := (objects_vars memory0)(0 := Slice [Some [VUint64 9]] 1)\<rparr>)"
  using empty_region_keeps_slice
          [where dec = "Decoder0\<lparr>in_d := [1, 2, 3], length_d := 8, offset := 8,
                                 offsets := Some [8]\<rparr>"
             and ?dec1.0 = "Decoder0\<lparr>in_d := [1, 2, 3], length_d := 8, offset := 8,
                                    offsets := Some []\<rparr>"
             and mem = "memory0\<lparr>blobs_vars := (blobs_vars memory0)
                                 (0 := Slice [Slice [7] 1, Slice [6, 5] 2] 2)\<rparr>"
             and blobs = 0 and maxItems = 10 and maxSize = 10]
        empty_region_keeps_slice
          [where dec = "Decoder0\<lparr>in_d := [1, 2, 3], length_d := 8, offset := 8,
                                 offsets := Some [8]\<rparr>"
             and ?dec1.0 = "Decoder0\<lparr>in_d := [1, 2, 3], length_d := 8, offset := 8,
                                    offsets := Some []\<rparr>"
             and mem = "memory0\<lparr>bytes_vars := (bytes_vars memory0)(0 := Slice [[7, 6]] 1)\<rparr>"
             and N = 2 and bytes = 0 and maxItems = 10]
        empty_region_keeps_slice
          [where dec = "Decoder0\<lparr>in_d := [1, 2, 3], length_d := 8, offset := 8,
                                 offsets := Some [8]\<rparr>"
             and ?dec1.0 = "Decoder0\<lparr>in_d := [1, 2, 3], length_d := 8, offset := 8,
                                    offsets := Some []\<rparr>"
             and mem = "memory0\<lparr>objects_vars := (objects_vars memory0)
                                 (0 := Slice [Some [VUint64 9]] 1)\<rparr>"
             and T = "\<lparr>StaticSSZ = True, SizeSSZ = 8, new = [VUint64 0]\<rparr>"
             and objects = 0 and maxItems = 10]
  by (simp add: retrieveSize_def offsets_list_def Decoder0_def Let_def)

end
